theory Spec2Isabelle
  imports Main "HOL-Library.Sublist" "HOL-Library.AList" "HOL-Library.Char_ord" "HOL-Library.List_Lexorder"
begin

section \<open>Go strings and the functions of package strings that the code calls\<close>

text \<open>
  A Go string is a sequence of bytes: \<^typ>\<open>string\<close>. An error value is modelled by its
  message, the string that \<^verbatim>\<open>fmt.Errorf\<close> builds; a function that returns
  \<^verbatim>\<open>(T, error)\<close> returns \<open>string + T\<close>, \<open>Inl\<close> holding the message.
\<close>

type_synonym 'a result = "string + 'a"

text \<open>\<^verbatim>\<open>strings.Cut(s, sep)\<close>: the text before and after the first occurrence of \<open>sep\<close>.\<close>

fun Cut :: "string \<Rightarrow> string \<Rightarrow> (string \<times> string) option" where
  "Cut [] sep = (if sep = [] then Some ([], []) else None)"
| "Cut (c # s) sep =
     (if prefix sep (c # s) then Some ([], drop (length sep) (c # s))
      else map_option (\<lambda>(a, b). (c # a, b)) (Cut s sep))"

text \<open>\<^verbatim>\<open>strings.Contains(s, substr)\<close>.\<close>

definition Contains :: "string \<Rightarrow> string \<Rightarrow> bool" where
  "Contains s substr = (Cut s substr \<noteq> None)"

text \<open>\<^verbatim>\<open>strings.TrimPrefix(s, prefix)\<close>.\<close>

definition TrimPrefix :: "string \<Rightarrow> string \<Rightarrow> string" where
  "TrimPrefix s p = (if prefix p s then drop (length p) s else s)"

text \<open>
  \<^verbatim>\<open>strings.SplitN(s, sep, n)\<close> for a non-empty separator and \<open>n \<ge> 0\<close>: at most \<open>n\<close>
  pieces, the last one the unsplit remainder.
\<close>

fun SplitN :: "string \<Rightarrow> string \<Rightarrow> nat \<Rightarrow> string list" where
  "SplitN s sep 0 = []"
| "SplitN s sep (Suc n) =
     (if n = 0 then [s]
      else case Cut s sep of None \<Rightarrow> [s] | Some (a, b) \<Rightarrow> a # SplitN b sep n)"

text \<open>\<^verbatim>\<open>strings.Join(elems, sep)\<close>.\<close>

fun Join :: "string list \<Rightarrow> string \<Rightarrow> string" where
  "Join [] sep = []"
| "Join [a] sep = a"
| "Join (a # b # r) sep = a @ sep @ Join (b # r) sep"

text \<open>
  \<^verbatim>\<open>strings.Fields(s)\<close> splits around runs of white space as \<^verbatim>\<open>unicode.IsSpace\<close> defines
  it. \<open>space_width s\<close> is the number of bytes of the white-space character at the head of \<open>s\<close>
  (0 when there is none): the ASCII characters tab, line feed, vertical tab, form feed,
  carriage return and space, and the UTF-8 encodings of U+0085, U+00A0, U+1680,
  U+2000 to U+200A, U+2028, U+2029, U+202F, U+205F and U+3000.
\<close>

definition ascii_space :: "char \<Rightarrow> bool" where
  "ascii_space c =
     (c = CHR 0x09 \<or> c = CHR 0x0A \<or> c = CHR 0x0B \<or> c = CHR 0x0C \<or> c = CHR 0x0D \<or> c = CHR 0x20)"

definition space_width :: "string \<Rightarrow> nat" where
  "space_width s =
     (case s of
        [] \<Rightarrow> 0
      | a # r \<Rightarrow>
          if ascii_space a then 1
          else if take 2 s = [CHR 0xC2, CHR 0x85] \<or> take 2 s = [CHR 0xC2, CHR 0xA0] then 2
          else if take 3 s = [CHR 0xE1, CHR 0x9A, CHR 0x80]
                \<or> (take 2 s = [CHR 0xE2, CHR 0x80] \<and> length s \<ge> 3
                    \<and> ((0x80 \<le> (of_char (s ! 2) :: nat) \<and> (of_char (s ! 2) :: nat) \<le> 0x8A)
                       \<or> s ! 2 = CHR 0xA8 \<or> s ! 2 = CHR 0xA9 \<or> s ! 2 = CHR 0xAF))
                \<or> take 3 s = [CHR 0xE2, CHR 0x81, CHR 0x9F]
                \<or> take 3 s = [CHR 0xE3, CHR 0x80, CHR 0x80] then 3
          else 0)"

text \<open>
  The scan keeps the number of bytes of a white-space character still to skip and the
  field being read.
\<close>

fun fields_scan :: "nat \<Rightarrow> string \<Rightarrow> string \<Rightarrow> string list" where
  "fields_scan k cur [] = (if cur = [] then [] else [cur])"
| "fields_scan (Suc k) cur (c # s) = fields_scan k cur s"
| "fields_scan 0 cur (c # s) =
     (if space_width (c # s) = 0 then fields_scan 0 (cur @ [c]) s
      else (if cur = [] then [] else [cur]) @ fields_scan (space_width (c # s) - 1) [] s)"

definition Fields :: "string \<Rightarrow> string list" where
  "Fields s = fields_scan 0 [] s"

text \<open>The verb \<^verbatim>\<open>%d\<close> of package fmt on a number that is not negative.\<close>

fun show_nat :: "nat \<Rightarrow> string" where
  "show_nat n =
     (if n < 10 then [char_of (48 + n)] else show_nat (n div 10) @ [char_of (48 + n mod 10)])"

section \<open>UTF-8 as package encoding/json reads and writes it\<close>

text \<open>
  \<open>rune_width s\<close> is the number of bytes of the UTF-8 encoding at the head of \<open>s\<close>, as
  \<^verbatim>\<open>utf8.DecodeRuneInString\<close> accepts it, and 0 when the first byte starts no valid encoding
  (a stray continuation byte, an overlong or surrogate encoding, a code point above
  U+10FFFF, or an encoding cut short).
\<close>

definition byte_in :: "nat \<Rightarrow> nat \<Rightarrow> string \<Rightarrow> nat \<Rightarrow> bool" where
  "byte_in lo hi s i = (i < length s \<and> lo \<le> (of_char (s ! i) :: nat) \<and> (of_char (s ! i) :: nat) \<le> hi)"

definition rune_width :: "string \<Rightarrow> nat" where
  "rune_width s =
     (case s of
        [] \<Rightarrow> 0
      | a # r \<Rightarrow>
          let n = (of_char a :: nat) in
          if n < 0x80 then 1
          else if n < 0xC2 then 0
          else if n < 0xE0 then (if byte_in 0x80 0xBF s 1 then 2 else 0)
          else if n < 0xF0 then
            (if byte_in (if n = 0xE0 then 0xA0 else 0x80) (if n = 0xED then 0x9F else 0xBF) s 1
                \<and> byte_in 0x80 0xBF s 2 then 3 else 0)
          else if n < 0xF5 then
            (if byte_in (if n = 0xF0 then 0x90 else 0x80) (if n = 0xF4 then 0x8F else 0xBF) s 1
                \<and> byte_in 0x80 0xBF s 2 \<and> byte_in 0x80 0xBF s 3 then 4 else 0)
          else 0)"

text \<open>
  Both \<^verbatim>\<open>json.Marshal\<close>, when it writes a string or the key of a map, and \<^verbatim>\<open>json.Unmarshal\<close>,
  when it reads a string or the name of a member, coerce the string to valid UTF-8: every
  byte that starts no valid encoding is replaced by U+FFFD, the bytes \<open>EF BF BD\<close>.
\<close>

function coerce_utf8 :: "string \<Rightarrow> string" where
  "coerce_utf8 s =
     (if s = [] then []
      else if rune_width s = 0 then [CHR 0xEF, CHR 0xBF, CHR 0xBD] @ coerce_utf8 (tl s)
      else take (rune_width s) s @ coerce_utf8 (drop (rune_width s) s))"
  by pat_completeness auto
termination
  by (relation "measure length") auto

declare coerce_utf8.simps [simp del]

text \<open>\<^verbatim>\<open>utf8.ValidString\<close>.\<close>

definition ValidString :: "string \<Rightarrow> bool" where
  "ValidString s = (coerce_utf8 s = s)"

section \<open>JSON documents and package encoding/json\<close>

text \<open>
  A JSON text is modelled by the value it denotes. A number keeps its literal. An object keeps
  its members in the order of the text, repeated names included. A string holds the bytes of
  the literal with its escapes resolved; they need not be valid UTF-8.
\<close>

datatype json =
    JNull
  | JBool bool
  | JNumber string
  | JString string
  | JArray "json list"
  | JObject "(string \<times> json) list"

text \<open>
  The content of an existing file, as \<^verbatim>\<open>json.Unmarshal\<close> reads it: the empty string, a
  text that is not a JSON value (a syntax error), or the text of a JSON value.
  The content of a materialized file is a string taken verbatim, or the string that
  \<^verbatim>\<open>json.MarshalIndent(v, "", "  ")\<close> renders for a JSON value. The encoders below put
  only coerced strings into that value, so reading the rendered string back gives \<open>JSONText\<close>
  of the same value.
\<close>

datatype file_text = EmptyText | InvalidJSON | JSONText json

datatype file_content = Verbatim string | Indented json

text \<open>
  A Go map with string keys is an association list, read with \<^const>\<open>map_of\<close> and written
  with \<^const>\<open>AList.update\<close>. A map that can be nil is an \<open>option\<close>, \<open>None\<close> being nil.
\<close>

type_synonym 'v gomap = "(string \<times> 'v) list"

definition elems :: "'a list option \<Rightarrow> 'a list" where
  "elems s = (case s of None \<Rightarrow> [] | Some xs \<Rightarrow> xs)"

text \<open>
  A slice is nil, or has its elements and, after them, what its backing array holds beyond
  its length: the values left there when the slice was cut shorter. (Memory that was never
  written holds zero values, so the capacity itself plays no role: reading beyond the list
  gives the zero value.)
\<close>

datatype 'a slice = NilSlice | Slice "'a list" "'a list"

definition slice_elems :: "'a slice \<Rightarrow> 'a list" where
  "slice_elems s = (case s of NilSlice \<Rightarrow> [] | Slice xs spare \<Rightarrow> xs)"

definition backing :: "'a slice \<Rightarrow> 'a list" where
  "backing s = (case s of NilSlice \<Rightarrow> [] | Slice xs spare \<Rightarrow> xs @ spare)"

text \<open>
  Decoding follows the documentation of \<^verbatim>\<open>json.Unmarshal\<close>. JSON null leaves a string, a
  bool or a struct as it is and sets a slice or a map to nil. A value of another kind than the
  Go type expects is an \<^verbatim>\<open>UnmarshalTypeError\<close>: \<open>None\<close>. (Unmarshal goes on decoding after
  such an error and returns it at the end; its callers here discard the decoded value then,
  so the model stops at once.) An object adds its members to the map, creating it when
  nil; each map element is decoded into a fresh zero value.
\<close>

definition dec_string :: "string \<Rightarrow> json \<Rightarrow> string option" where
  "dec_string cur v =
     (case v of JNull \<Rightarrow> Some cur | JString s \<Rightarrow> Some (coerce_utf8 s) | _ \<Rightarrow> None)"

definition dec_bool :: "bool \<Rightarrow> json \<Rightarrow> bool option" where
  "dec_bool cur v = (case v of JNull \<Rightarrow> Some cur | JBool b \<Rightarrow> Some b | _ \<Rightarrow> None)"

text \<open>
  An array is decoded element by element into the slice the field holds: element \<open>i\<close> is
  decoded into what the backing array holds at \<open>i\<close> (so that a null element keeps that
  value), the array growing with zero values when it is too short; then the slice is cut to
  the length of the array. The empty array gives a new empty slice.
\<close>

fun dec_string_elems :: "string list \<Rightarrow> json list \<Rightarrow> string list option" where
  "dec_string_elems old [] = Some []"
| "dec_string_elems old (x # xs) =
     (case dec_string (case old of [] \<Rightarrow> [] | b # _ \<Rightarrow> b) x of
        None \<Rightarrow> None
      | Some y \<Rightarrow> map_option (\<lambda>ys. y # ys) (dec_string_elems (tl old) xs))"

definition dec_string_slice :: "string slice \<Rightarrow> json \<Rightarrow> string slice option" where
  "dec_string_slice cur v =
     (case v of
        JNull \<Rightarrow> Some NilSlice
      | JArray xs \<Rightarrow>
          if xs = [] then Some (Slice [] [])
          else map_option (\<lambda>ys. Slice ys (drop (length xs) (backing cur)))
                 (dec_string_elems (backing cur) xs)
      | _ \<Rightarrow> None)"

fun dec_map_entries :: "(json \<Rightarrow> 'v option) \<Rightarrow> (string \<times> json) list \<Rightarrow> 'v gomap \<Rightarrow> 'v gomap option" where
  "dec_map_entries d [] m = Some m"
| "dec_map_entries d ((k, x) # kvs) m =
     (case d x of
        None \<Rightarrow> None
      | Some v \<Rightarrow> dec_map_entries d kvs (AList.update (coerce_utf8 k) v m))"

definition dec_map :: "(json \<Rightarrow> 'v option) \<Rightarrow> 'v gomap option \<Rightarrow> json \<Rightarrow> 'v gomap option option" where
  "dec_map d cur v =
     (case v of
        JNull \<Rightarrow> Some None
      | JObject kvs \<Rightarrow> map_option Some (dec_map_entries d kvs (elems cur))
      | _ \<Rightarrow> None)"

text \<open>
  A struct is decoded member by member, in the order of the text; \<open>step\<close> decodes one member
  into the struct. A member's name, coerced as every string, selects the field whose JSON
  name it equals under Unicode simple case folding (\<^verbatim>\<open>bytes.EqualFold\<close>); a name that selects no field is skipped.
  The field names here are ASCII, so two names are equal under folding when \<open>foldName\<close> maps
  them to the same string: it puts ASCII letters in upper case and replaces U+017F (long s)
  by \<open>S\<close> and U+212A (Kelvin sign) by \<open>K\<close>.
\<close>

fun dec_fields :: "('s \<Rightarrow> string \<times> json \<Rightarrow> 's option) \<Rightarrow> (string \<times> json) list \<Rightarrow> 's \<Rightarrow> 's option" where
  "dec_fields step [] c = Some c"
| "dec_fields step (kv # kvs) c =
     (case step c (coerce_utf8 (fst kv), snd kv) of
        None \<Rightarrow> None
      | Some c' \<Rightarrow> dec_fields step kvs c')"

definition dec_struct :: "('s \<Rightarrow> string \<times> json \<Rightarrow> 's option) \<Rightarrow> 's \<Rightarrow> json \<Rightarrow> 's option" where
  "dec_struct step cur v =
     (case v of JNull \<Rightarrow> Some cur | JObject kvs \<Rightarrow> dec_fields step kvs cur | _ \<Rightarrow> None)"

definition upper :: "char \<Rightarrow> char" where
  "upper c = (if CHR ''a'' \<le> c \<and> c \<le> CHR ''z'' then char_of (of_char c - (32::nat)) else c)"

fun foldName :: "string \<Rightarrow> string" where
  "foldName [] = []"
| "foldName [a] = [upper a]"
| "foldName [a, b] =
     (if a = CHR 0xC5 \<and> b = CHR 0xBF then ''S'' else [upper a, upper b])"
| "foldName (a # b # c # s) =
     (if a = CHR 0xC5 \<and> b = CHR 0xBF then CHR ''S'' # foldName (c # s)
      else if a = CHR 0xE2 \<and> b = CHR 0x84 \<and> c = CHR 0xAA then CHR ''K'' # foldName s
      else upper a # foldName (b # c # s))"

text \<open>
  Encoding: \<^verbatim>\<open>json.Marshal\<close> writes every string coerced to valid UTF-8. It sorts the keys
  of a map as they are and writes them coerced, so that two keys can give two members of
  one name. It leaves out a field tagged \<^verbatim>\<open>omitempty\<close> when it is false, or a string, slice
  or map of length 0.
\<close>

definition enc_string :: "string \<Rightarrow> json" where
  "enc_string s = JString (coerce_utf8 s)"

definition map_keys :: "'v gomap \<Rightarrow> string list" where
  "map_keys m = sort (remdups (map fst m))"

definition enc_map :: "('v \<Rightarrow> json) \<Rightarrow> 'v gomap \<Rightarrow> json" where
  "enc_map enc m = JObject (map (\<lambda>k. (coerce_utf8 k, enc (the (map_of m k)))) (map_keys m))"

definition enc_strings :: "string list \<Rightarrow> json" where
  "enc_strings xs = JArray (map enc_string xs)"

definition omitempty_string :: "string \<Rightarrow> string \<Rightarrow> (string \<times> json) list" where
  "omitempty_string name s = (if length s = 0 then [] else [(name, enc_string s)])"

definition omitempty_strings :: "string \<Rightarrow> string slice \<Rightarrow> (string \<times> json) list" where
  "omitempty_strings name s = (if length (slice_elems s) = 0 then [] else [(name, enc_strings (slice_elems s))])"

definition omitempty_string_map :: "string \<Rightarrow> string gomap option \<Rightarrow> (string \<times> json) list" where
  "omitempty_string_map name m =
     (if length (map_keys (elems m)) = 0 then [] else [(name, enc_map enc_string (elems m))])"

definition omitempty_bool :: "string \<Rightarrow> bool \<Rightarrow> (string \<times> json) list" where
  "omitempty_bool name b = (if b then [(name, JBool True)] else [])"

text \<open>The member of an object with a given name, for reading a rendered document.\<close>

definition json_member :: "string \<Rightarrow> json \<Rightarrow> json option" where
  "json_member name v = (case v of JObject kvs \<Rightarrow> map_of kvs name | _ \<Rightarrow> None)"

section \<open>Package claude: merging string lists\<close>

text \<open>
  \<^verbatim>\<open>mergeUniqueStrings\<close> (plugins/claude/ide.go). The two loops of the source share their
  body; \<open>merge_loop\<close> is that loop over the state \<open>(seen, result)\<close>, where \<open>seen\<close> is the
  Go \<^verbatim>\<open>map[string]bool\<close> (a missing key reads \<open>False\<close>).
\<close>

fun merge_loop :: "(string \<Rightarrow> bool) \<times> string list \<Rightarrow> string list \<Rightarrow> (string \<Rightarrow> bool) \<times> string list" where
  "merge_loop st [] = st"
| "merge_loop (seen, result) (s # ss) =
     (if \<not> seen s then merge_loop (seen(s := True), result @ [s]) ss
      else merge_loop (seen, result) ss)"

definition mergeUniqueStrings :: "string list \<Rightarrow> string list \<Rightarrow> string list" where
  "mergeUniqueStrings existing new =
     snd (merge_loop (merge_loop (\<lambda>_. False, []) existing) new)"

text \<open>
  The specification's reading of "first-seen-wins": the elements of a list at the positions
  where they have not occurred before, in the order of the list.
\<close>

definition first_occurrences :: "'a list \<Rightarrow> 'a list" where
  "first_occurrences xs =
     map (\<lambda>i. xs ! i) (filter (\<lambda>i. xs ! i \<notin> set (take i xs)) [0..<length xs])"

section \<open>Package shared: the MCP servers file\<close>

text \<open>
  The struct \<^verbatim>\<open>mcpServerConfig\<close> with its JSON names \<open>type\<close>, \<open>command\<close>, \<open>args\<close>, \<open>env\<close>
  and \<open>url\<close>, all tagged \<^verbatim>\<open>omitempty\<close>; and \<^verbatim>\<open>mcpJson\<close>, whose field \<open>mcpServers\<close> is not.
\<close>

record mcpServerConfig =
  Type :: string
  Command :: string
  Args :: "string slice"
  Env :: "string gomap option"
  Url :: string

record mcpJson =
  McpServers :: "mcpServerConfig gomap option"

definition mcpServerConfig_zero :: mcpServerConfig where
  "mcpServerConfig_zero = \<lparr>Type = [], Command = [], Args = NilSlice, Env = None, Url = []\<rparr>"

definition mcpJson_zero :: mcpJson where
  "mcpJson_zero = \<lparr>McpServers = None\<rparr>"

definition mcpServerConfig_member :: "mcpServerConfig \<Rightarrow> string \<times> json \<Rightarrow> mcpServerConfig option" where
  "mcpServerConfig_member c kv =
     (let f = foldName (fst kv); v = snd kv in
      if f = foldName ''type'' then map_option (\<lambda>x. c\<lparr>Type := x\<rparr>) (dec_string (Type c) v)
      else if f = foldName ''command'' then map_option (\<lambda>x. c\<lparr>Command := x\<rparr>) (dec_string (Command c) v)
      else if f = foldName ''args'' then map_option (\<lambda>x. c\<lparr>Args := x\<rparr>) (dec_string_slice (Args c) v)
      else if f = foldName ''env'' then map_option (\<lambda>x. c\<lparr>Env := x\<rparr>) (dec_map (dec_string []) (Env c) v)
      else if f = foldName ''url'' then map_option (\<lambda>x. c\<lparr>Url := x\<rparr>) (dec_string (Url c) v)
      else Some c)"

definition mcpJson_member :: "mcpJson \<Rightarrow> string \<times> json \<Rightarrow> mcpJson option" where
  "mcpJson_member cm kv =
     (if foldName (fst kv) = foldName ''mcpServers''
      then map_option (\<lambda>x. cm\<lparr>McpServers := x\<rparr>)
             (dec_map (dec_struct mcpServerConfig_member mcpServerConfig_zero) (McpServers cm) (snd kv))
      else Some cm)"

text \<open>\<^verbatim>\<open>json.Unmarshal(text, &cm)\<close> on the text of the JSON value \<open>v\<close>.\<close>

definition Unmarshal_mcpJson :: "json \<Rightarrow> mcpJson \<Rightarrow> mcpJson option" where
  "Unmarshal_mcpJson v cm = dec_struct mcpJson_member cm v"

definition enc_mcpServerConfig :: "mcpServerConfig \<Rightarrow> json" where
  "enc_mcpServerConfig c =
     JObject (omitempty_string ''type'' (Type c) @ omitempty_string ''command'' (Command c)
              @ omitempty_strings ''args'' (Args c) @ omitempty_string_map ''env'' (Env c)
              @ omitempty_string ''url'' (Url c))"

text \<open>
  \<^verbatim>\<open>json.MarshalIndent(&cm, "", "  ")\<close>: the JSON value whose text it returns. It returns no
  error on these types, so the error branch after it in the source is never taken.
\<close>

definition Marshal_mcpJson :: "mcpJson \<Rightarrow> json" where
  "Marshal_mcpJson cm =
     JObject [(''mcpServers'',
               case McpServers cm of None \<Rightarrow> JNull | Some m \<Rightarrow> enc_map enc_mcpServerConfig m)]"

text \<open>
  The messages \<^verbatim>\<open>adcp.Mcp\<close> and \<^verbatim>\<open>adcp.McpServer\<close>: a server is a oneof of an HTTP or a stdio
  server, or has no type set. Pointers are options. The list \<open>GetServers\<close> holds the entries of
  the Go map in the order the \<^verbatim>\<open>range\<close> loop visits them; that order is not fixed in Go, and
  \<open>buildMcpJSON_range_order\<close> below shows that the document does not depend on it.
\<close>

datatype HttpMcpServer = HttpMcpServer (GetUrl: string)

datatype StdioMcpServer = StdioMcpServer (GetCommand: string)

datatype McpServer =
    McpServer_Http "HttpMcpServer option"
  | McpServer_Stdio "StdioMcpServer option"
  | McpServer_not_set

record Mcp =
  GetServers :: "(string \<times> McpServer option) list"

text \<open>The body of the loop of \<^verbatim>\<open>buildMcpJSON\<close>: the entry \<open>srv\<close> built for one server.\<close>

definition stdio_config :: "string \<Rightarrow> mcpServerConfig" where
  "stdio_config cmd =
     (let parts = (if cmd \<noteq> [] then Fields cmd else []) in
      \<lparr>Type = ''stdio'',
       Command = (case parts of [] \<Rightarrow> [] | p # _ \<Rightarrow> p),
       Args = (case parts of _ # a # r \<Rightarrow> Slice (a # r) [] | _ \<Rightarrow> NilSlice),
       Env = Some [],
       Url = []\<rparr>)"

definition server_config :: "McpServer \<Rightarrow> mcpServerConfig" where
  "server_config s =
     (case s of
        McpServer_Http (Some h) \<Rightarrow> mcpServerConfig_zero\<lparr>Type := ''http'', Url := GetUrl h\<rparr>
      | McpServer_Stdio (Some st) \<Rightarrow> stdio_config (GetCommand st)
      | _ \<Rightarrow> mcpServerConfig_zero)"

definition add_server :: "string \<times> McpServer option \<Rightarrow> mcpServerConfig gomap \<Rightarrow> mcpServerConfig gomap" where
  "add_server entry m =
     (case snd entry of
        None \<Rightarrow> m
      | Some McpServer_not_set \<Rightarrow> m
      | Some s \<Rightarrow>
          let srv = server_config s in
          if Type srv \<noteq> [] \<or> Url srv \<noteq> [] \<or> Command srv \<noteq> []
          then AList.update (fst entry) srv m else m)"

definition existing_mcpJson :: "file_text \<Rightarrow> mcpJson" where
  "existing_mcpJson existingContent =
     (case existingContent of
        JSONText v \<Rightarrow> (case Unmarshal_mcpJson v mcpJson_zero of None \<Rightarrow> mcpJson_zero | Some cm \<Rightarrow> cm)
      | _ \<Rightarrow> mcpJson_zero)"

definition buildMcpJSON :: "Mcp option \<Rightarrow> file_text \<Rightarrow> json result" where
  "buildMcpJSON mcp existingContent =
     (case mcp of
        None \<Rightarrow> Inl ''mcp cannot be nil''
      | Some m \<Rightarrow>
          let cm = existing_mcpJson existingContent;
              servers = fold add_server (GetServers m) (elems (McpServers cm))
          in Inr (Marshal_mcpJson (cm\<lparr>McpServers := Some servers\<rparr>)))"

section \<open>Package claude: the settings file\<close>

text \<open>
  The struct \<^verbatim>\<open>claudeSettings\<close>; its field \<open>permissions\<close> is an anonymous struct. All fields but
  \<open>permissions\<close> are tagged \<^verbatim>\<open>omitempty\<close>.
\<close>

record claudePermissions =
  Allow :: "string slice"
  Deny :: "string slice"
  Ask :: "string slice"
  DefaultMode :: string

record claudeSettings =
  Permissions :: claudePermissions
  EnabledMcpjsonServers :: "string slice"
  EnableAllProjectMcpServers :: bool

definition claudeSettings_zero :: claudeSettings where
  "claudeSettings_zero =
     \<lparr>Permissions = \<lparr>Allow = NilSlice, Deny = NilSlice, Ask = NilSlice, DefaultMode = []\<rparr>,
      EnabledMcpjsonServers = NilSlice, EnableAllProjectMcpServers = False\<rparr>"

definition claudePermissions_member :: "claudePermissions \<Rightarrow> string \<times> json \<Rightarrow> claudePermissions option" where
  "claudePermissions_member p kv =
     (let f = foldName (fst kv); v = snd kv in
      if f = foldName ''allow'' then map_option (\<lambda>x. p\<lparr>Allow := x\<rparr>) (dec_string_slice (Allow p) v)
      else if f = foldName ''deny'' then map_option (\<lambda>x. p\<lparr>Deny := x\<rparr>) (dec_string_slice (Deny p) v)
      else if f = foldName ''ask'' then map_option (\<lambda>x. p\<lparr>Ask := x\<rparr>) (dec_string_slice (Ask p) v)
      else if f = foldName ''defaultMode''
        then map_option (\<lambda>x. p\<lparr>DefaultMode := x\<rparr>) (dec_string (DefaultMode p) v)
      else Some p)"

definition claudeSettings_member :: "claudeSettings \<Rightarrow> string \<times> json \<Rightarrow> claudeSettings option" where
  "claudeSettings_member s kv =
     (let f = foldName (fst kv); v = snd kv in
      if f = foldName ''permissions''
        then map_option (\<lambda>x. s\<lparr>Permissions := x\<rparr>) (dec_struct claudePermissions_member (Permissions s) v)
      else if f = foldName ''enabledMcpjsonServers''
        then map_option (\<lambda>x. s\<lparr>EnabledMcpjsonServers := x\<rparr>)
               (dec_string_slice (EnabledMcpjsonServers s) v)
      else if f = foldName ''enableAllProjectMcpServers''
        then map_option (\<lambda>x. s\<lparr>EnableAllProjectMcpServers := x\<rparr>)
               (dec_bool (EnableAllProjectMcpServers s) v)
      else Some s)"

definition Unmarshal_claudeSettings :: "json \<Rightarrow> claudeSettings \<Rightarrow> claudeSettings option" where
  "Unmarshal_claudeSettings v s = dec_struct claudeSettings_member s v"

definition Marshal_claudeSettings :: "claudeSettings \<Rightarrow> json" where
  "Marshal_claudeSettings s =
     JObject ([(''permissions'',
                JObject (omitempty_strings ''allow'' (Allow (Permissions s))
                         @ omitempty_strings ''deny'' (Deny (Permissions s))
                         @ omitempty_strings ''ask'' (Ask (Permissions s))
                         @ omitempty_string ''defaultMode'' (DefaultMode (Permissions s))))]
              @ omitempty_strings ''enabledMcpjsonServers'' (EnabledMcpjsonServers s)
              @ omitempty_bool ''enableAllProjectMcpServers'' (EnableAllProjectMcpServers s))"

text \<open>
  The messages \<^verbatim>\<open>adcp.Permissions\<close> and \<^verbatim>\<open>adcp.OperationPermission\<close>. \<^verbatim>\<open>HasType\<close> is false on
  a nil pointer and on a permission with no type set.
\<close>

datatype OperationPermission =
    OperationPermission_Bash string
  | OperationPermission_Read string
  | OperationPermission_Write string
  | OperationPermission_not_set

record adcp_Permissions =
  GetAllow :: "OperationPermission option list"
  GetDeny :: "OperationPermission option list"

definition HasType :: "OperationPermission option \<Rightarrow> bool" where
  "HasType p = (case p of None \<Rightarrow> False | Some OperationPermission_not_set \<Rightarrow> False | Some _ \<Rightarrow> True)"

definition formatPermission :: "OperationPermission option \<Rightarrow> string" where
  "formatPermission p =
     (case p of
        Some (OperationPermission_Bash a) \<Rightarrow> ''Bash('' @ a @ '')''
      | Some (OperationPermission_Read a) \<Rightarrow> ''Read('' @ a @ '')''
      | Some (OperationPermission_Write a) \<Rightarrow> ''Write('' @ a @ '')''
      | _ \<Rightarrow> [])"

definition existing_claudeSettings :: "file_text \<Rightarrow> claudeSettings" where
  "existing_claudeSettings existingContent =
     (case existingContent of
        JSONText v \<Rightarrow>
          (case Unmarshal_claudeSettings v claudeSettings_zero of
             None \<Rightarrow> claudeSettings_zero
           | Some s \<Rightarrow> s)
      | _ \<Rightarrow> claudeSettings_zero)"

text \<open>The step \<^verbatim>\<open>if s == nil { s = []string{} }\<close>, and a slice built by \<^verbatim>\<open>append\<close>.\<close>

definition non_nil :: "'a slice \<Rightarrow> 'a slice" where
  "non_nil s = (case s of NilSlice \<Rightarrow> Slice [] [] | _ \<Rightarrow> s)"

definition new_permissions :: "OperationPermission option list \<Rightarrow> string list" where
  "new_permissions ps = map formatPermission (filter HasType ps)"

definition buildClaudeSettingsJSON ::
    "adcp_Permissions option \<Rightarrow> string list \<Rightarrow> string list \<Rightarrow> file_text \<Rightarrow> json result" where
  "buildClaudeSettingsJSON perms mcpServerNames commandNames existingContent =
     (let s0 = existing_claudeSettings existingContent;
          p1 = (Permissions s0)
                 \<lparr>Allow := non_nil (Allow (Permissions s0)),
                  Deny := non_nil (Deny (Permissions s0)),
                  Ask := non_nil (Ask (Permissions s0)),
                  DefaultMode := ''acceptEdits''\<rparr>;
          s1 = s0\<lparr>Permissions := p1,
                  EnabledMcpjsonServers := non_nil (EnabledMcpjsonServers s0),
                  EnableAllProjectMcpServers := True\<rparr>;
          newAllow = (case perms of None \<Rightarrow> [] | Some p \<Rightarrow> new_permissions (GetAllow p));
          newDeny = (case perms of None \<Rightarrow> [] | Some p \<Rightarrow> new_permissions (GetDeny p));
          mcpAllowPermissions = map (\<lambda>serverName. ''mcp__'' @ serverName) mcpServerNames;
          cmdAllow = map (\<lambda>name. ''SlashCommand(/'' @ name @ '')'')
                         (filter (\<lambda>name. name \<noteq> []) commandNames);
          newAllow' = newAllow @ mcpAllowPermissions @ cmdAllow;
          p2 = p1\<lparr>Allow := Slice (mergeUniqueStrings (slice_elems (Allow p1)) newAllow') [],
                  Deny := Slice (mergeUniqueStrings (slice_elems (Deny p1)) newDeny) []\<rparr>;
          s2 = s1\<lparr>Permissions := p2,
                  EnabledMcpjsonServers :=
                    Slice (mergeUniqueStrings (slice_elems (EnabledMcpjsonServers s1)) mcpServerNames) []\<rparr>
      in Inr (Marshal_claudeSettings s2))"

section \<open>Package utils: GitHub references\<close>

datatype GitVersion = GitVersion_Tag string | GitVersion_Commit string | GitVersion_not_set

text \<open>
  \<^verbatim>\<open>ConvertToRawURL\<close> (utils/github.go). The version is a pointer: \<open>None\<close> is nil.
\<close>

definition raw_url :: "string \<Rightarrow> string \<Rightarrow> string \<Rightarrow> string \<Rightarrow> string" where
  "raw_url owner repo ref filePath =
     ''https://raw.githubusercontent.com/'' @ owner @ ''/'' @ repo @ ''/'' @ ref @ ''/'' @ filePath"

definition strip_github_prefixes :: "string \<Rightarrow> string" where
  "strip_github_prefixes githubPath =
     TrimPrefix (TrimPrefix (TrimPrefix githubPath ''https://'') ''http://'') ''github.com/''"

definition version_ref :: "GitVersion option \<Rightarrow> string" where
  "version_ref version =
     (case version of
        Some (GitVersion_Tag t) \<Rightarrow> t
      | Some (GitVersion_Commit c) \<Rightarrow> c
      | _ \<Rightarrow> ''main'')"

definition ConvertToRawURL :: "string \<Rightarrow> GitVersion option \<Rightarrow> string result" where
  "ConvertToRawURL githubPath version =
     (if Contains githubPath ''raw.githubusercontent.com'' \<or> \<not> Contains githubPath ''github.com''
      then Inr githubPath
      else
        let p = strip_github_prefixes githubPath;
            parts = SplitN p ''/'' 5
        in if length parts \<ge> 4 \<and> (parts ! 2 = ''blob'' \<or> parts ! 2 = ''tree'') then
             (if length parts < 5 then Inl (''invalid github path format: '' @ p)
              else Inr (raw_url (parts ! 0) (parts ! 1) (parts ! 3) (parts ! 4)))
           else if length parts \<ge> 3 then
             Inr (raw_url (parts ! 0) (parts ! 1) (version_ref version) (Join (drop 2 parts) ''/''))
           else Inl (''invalid github path format: '' @ p))"


section \<open>The world outside: shell, HTTP and the file system\<close>

text \<open>
  Commands, HTTP requests and file reads are the program's contact with the world. The state
  of the world has an arbitrary type \<open>'w\<close>; a command or a request returns its outcome and
  the next state, a file read only looks at the state. The record \<open>sys\<close> holds these primitives:
  \<^item> \<open>CombinedOutput cmd\<close> is \<^verbatim>\<open>exec.CommandContext(ctx, "sh", "-c", cmd).CombinedOutput()\<close>:
    the captured output, and the text of the error when the command fails;
  \<^item> \<open>http_Get url\<close> is the GET request of \<^verbatim>\<open>fetchGithub\<close>;
  \<^item> \<open>ReadFile path\<close> is \<^verbatim>\<open>os.ReadFile\<close>, \<open>None\<close> when it returns an error;
  \<^item> \<open>protojson_Unmarshal\<close> parses a \<^verbatim>\<open>PrefetchResult\<close> with unknown fields discarded and
    returns its data items, or the text of the error.
\<close>

datatype http_outcome =
    NewRequest_failed string
  | Do_failed string
  | Response nat "string result"

datatype FetchedData = FetchedData (GetId: string) (GetData: string)

record 'w sys =
  CombinedOutput :: "string \<Rightarrow> 'w \<Rightarrow> (string \<times> string option) \<times> 'w"
  http_Get :: "string \<Rightarrow> 'w \<Rightarrow> http_outcome \<times> 'w"
  ReadFile :: "string \<Rightarrow> 'w \<Rightarrow> file_text option"
  protojson_Unmarshal :: "string \<Rightarrow> FetchedData list result"

text \<open>
  \<^verbatim>\<open>ExecuteCommand\<close> and \<^verbatim>\<open>FetchGithub\<close> of package utils, as the methods \<^verbatim>\<open>executeCommand\<close>
  and \<^verbatim>\<open>fetchGithub\<close> of the generators package have them.
\<close>

definition ExecuteCommand :: "'w sys \<Rightarrow> string \<Rightarrow> 'w \<Rightarrow> string result \<times> 'w" where
  "ExecuteCommand sys cmd w =
     (if cmd = [] then (Inl ''command cannot be empty'', w)
      else case CombinedOutput sys cmd w of
             ((output, Some err), w') \<Rightarrow>
               (Inl (''command execution failed: '' @ err @ '' (output: '' @ output @ '')''), w')
           | ((output, None), w') \<Rightarrow> (Inr output, w'))"

record GitReference =
  GetPath :: string
  GetVersion :: "GitVersion option"

definition FetchGithub :: "'w sys \<Rightarrow> GitReference option \<Rightarrow> 'w \<Rightarrow> string result \<times> 'w" where
  "FetchGithub sys ref w =
     (case ref of
        None \<Rightarrow> (Inl ''github reference cannot be nil'', w)
      | Some r \<Rightarrow>
          if GetPath r = [] then (Inl ''github path cannot be empty'', w)
          else case ConvertToRawURL (GetPath r) (GetVersion r) of
                 Inl err \<Rightarrow> (Inl err, w)
               | Inr url \<Rightarrow>
                   (case http_Get sys url w of
                      (NewRequest_failed err, w') \<Rightarrow> (Inl (''failed to create request: '' @ err), w')
                    | (Do_failed err, w') \<Rightarrow> (Inl (''failed to fetch from github: '' @ err), w')
                    | (Response status body, w') \<Rightarrow>
                        if status \<noteq> 200
                        then (Inl (''github fetch returned status '' @ show_nat status), w')
                        else (case body of
                                Inl err \<Rightarrow> (Inl (''failed to read response body: '' @ err), w')
                              | Inr b \<Rightarrow> (Inr b, w'))))"

section \<open>Materialized entries and the messages of a recipe\<close>

record Entry =
  Path :: string
  Content :: file_content

datatype CommandFrom =
    CommandFrom_Text string
  | CommandFrom_Cmd string
  | CommandFrom_Github "GitReference option"
  | CommandFrom_not_set

record adcp_Command =
  GetName :: string
  GetFrom :: "CommandFrom option"

record adcp_Commands =
  Commands_GetEntries :: "adcp_Command option list"

record Ide =
  GetCommands :: "adcp_Commands option"
  GetPermissions :: "adcp_Permissions option"
  GetMcp :: "Mcp option"

section \<open>Package claude: the settings strategy\<close>

text \<open>\<^verbatim>\<open>materializePermissions\<close> (plugins/claude/ide.go).\<close>

definition materializePermissions ::
    "'w sys \<Rightarrow> adcp_Permissions option \<Rightarrow> string list \<Rightarrow> string list \<Rightarrow> 'w \<Rightarrow> Entry list result" where
  "materializePermissions sys perms mcpServerNames commandNames w =
     (let settingsPath = ''.claude/settings.local.json'';
          existingContent = (case ReadFile sys settingsPath w of Some d \<Rightarrow> d | None \<Rightarrow> EmptyText)
      in case buildClaudeSettingsJSON perms mcpServerNames commandNames existingContent of
           Inl err \<Rightarrow> Inl err
         | Inr settingsContent \<Rightarrow> Inr [\<lparr>Path = settingsPath, Content = Indented settingsContent\<rparr>])"

section \<open>Package shared: the IDE materializer\<close>

record SettingsInput =
  Input_Permissions :: "adcp_Permissions option"
  MCPServerNames :: "string list"
  CommandNames :: "string list"

text \<open>
  The interface \<^verbatim>\<open>IDESettings\<close> is the type of its method \<^verbatim>\<open>Update\<close>; the implementations of
  the repository read the world and do not change it. A nil \<^verbatim>\<open>Settings\<close> is \<open>None\<close>.
\<close>

type_synonym 'w IDESettings = "SettingsInput \<Rightarrow> 'w \<Rightarrow> Entry list result"

record 'w IDE =
  CommandsFolder :: string
  MCPServersJSONPath :: string
  Settings :: "'w IDESettings option"

definition noOpSettings :: "'w IDESettings" where
  "noOpSettings input w = Inr []"

definition fetchCommandContent :: "'w sys \<Rightarrow> CommandFrom option \<Rightarrow> 'w \<Rightarrow> string result \<times> 'w" where
  "fetchCommandContent sys src w =
     (case src of
        None \<Rightarrow> (Inl ''command 'from' source cannot be nil'', w)
      | Some CommandFrom_not_set \<Rightarrow> (Inl ''command 'from' source cannot be nil'', w)
      | Some (CommandFrom_Text t) \<Rightarrow> (Inr t, w)
      | Some (CommandFrom_Cmd c) \<Rightarrow> ExecuteCommand sys c w
      | Some (CommandFrom_Github r) \<Rightarrow> FetchGithub sys r w)"

definition command_name :: "adcp_Command option \<Rightarrow> string" where
  "command_name c = (case c of None \<Rightarrow> [] | Some x \<Rightarrow> GetName x)"

definition command_from :: "adcp_Command option \<Rightarrow> CommandFrom option" where
  "command_from c = (case c of None \<Rightarrow> None | Some x \<Rightarrow> GetFrom x)"

text \<open>The loop of \<^verbatim>\<open>materializeCommands\<close>, with the entries collected so far.\<close>

fun materializeCommands_loop ::
    "'w sys \<Rightarrow> 'w IDE \<Rightarrow> adcp_Command option list \<Rightarrow> Entry list \<Rightarrow> 'w \<Rightarrow> Entry list result \<times> 'w" where
  "materializeCommands_loop sys i [] entries w = (Inr entries, w)"
| "materializeCommands_loop sys i (c # cs) entries w =
     (let name = command_name c in
      if name = [] then (Inl ''command name cannot be empty'', w)
      else if command_from c = None
        then (Inl (''command '' @ name @ '' must have a 'from' source''), w)
      else case fetchCommandContent sys (command_from c) w of
             (Inl err, w') \<Rightarrow> (Inl (''failed to materialize command '' @ name @ '': '' @ err), w')
           | (Inr content, w') \<Rightarrow>
               materializeCommands_loop sys i cs
                 (entries @ [\<lparr>Path = CommandsFolder i @ ''/'' @ name @ ''.md'',
                              Content = Verbatim content\<rparr>]) w')"

definition materializeCommands ::
    "'w sys \<Rightarrow> 'w IDE \<Rightarrow> adcp_Commands option \<Rightarrow> 'w \<Rightarrow> Entry list result \<times> 'w" where
  "materializeCommands sys i commands w =
     (case commands of
        None \<Rightarrow> (Inr [], w)
      | Some cs \<Rightarrow> materializeCommands_loop sys i (Commands_GetEntries cs) [] w)"

definition materializeMcp :: "'w sys \<Rightarrow> 'w IDE \<Rightarrow> Mcp option \<Rightarrow> 'w \<Rightarrow> Entry list result" where
  "materializeMcp sys i mcp w =
     (if mcp = None \<or> MCPServersJSONPath i = [] then Inr []
      else
        let existingContent =
              (case ReadFile sys (MCPServersJSONPath i) w of Some d \<Rightarrow> d | None \<Rightarrow> EmptyText)
        in case buildMcpJSON mcp existingContent of
             Inl err \<Rightarrow> Inl err
           | Inr mcpContent \<Rightarrow> Inr [\<lparr>Path = MCPServersJSONPath i, Content = Indented mcpContent\<rparr>])"

text \<open>
  \<^verbatim>\<open>IDE.Materialize\<close> (plugins/shared/ide.go). Go leaves the order of a \<^verbatim>\<open>range\<close> over a map
  open; the model visits the servers in the order of the list \<open>GetServers\<close>.
\<close>

definition IDE_Materialize :: "'w sys \<Rightarrow> 'w IDE \<Rightarrow> Ide option \<Rightarrow> 'w \<Rightarrow> Entry list result \<times> 'w" where
  "IDE_Materialize sys i ide w =
     (case ide of
        None \<Rightarrow> (Inl ''ide cannot be nil'', w)
      | Some d \<Rightarrow>
          (case (if GetCommands d \<noteq> None then materializeCommands sys i (GetCommands d) w
                 else (Inr [], w)) of
             (Inl err, w1) \<Rightarrow> (Inl err, w1)
           | (Inr cmdEntries, w1) \<Rightarrow>
               let mcpServerNames =
                     (case GetMcp d of None \<Rightarrow> [] | Some m \<Rightarrow> map fst (GetServers m));
                   commandNames =
                     (case GetCommands d of
                        None \<Rightarrow> []
                      | Some cs \<Rightarrow>
                          map command_name
                            (filter (\<lambda>c. c \<noteq> None \<and> command_name c \<noteq> []) (Commands_GetEntries cs)));
                   ideSett = (case Settings i of None \<Rightarrow> noOpSettings | Some s \<Rightarrow> s)
               in case ideSett \<lparr>Input_Permissions = GetPermissions d,
                                MCPServerNames = mcpServerNames,
                                CommandNames = commandNames\<rparr> w1 of
                    Inl err \<Rightarrow> (Inl err, w1)
                  | Inr settingEntries \<Rightarrow>
                      (case materializeMcp sys i (GetMcp d) w1 of
                         Inl err \<Rightarrow> (Inl err, w1)
                       | Inr mcpEntries \<Rightarrow> (Inr (cmdEntries @ settingEntries @ mcpEntries), w1))))"

text \<open>\<^verbatim>\<open>NewIDEProvider\<close> of package claude, with \<^verbatim>\<open>settings.Update\<close> as its settings strategy.\<close>

definition claude_Update :: "'w sys \<Rightarrow> 'w IDESettings" where
  "claude_Update sys input w =
     materializePermissions sys (Input_Permissions input) (MCPServerNames input) (CommandNames input) w"

definition claude_NewIDEProvider :: "'w sys \<Rightarrow> 'w IDE" where
  "claude_NewIDEProvider sys =
     \<lparr>CommandsFolder = ''.claude/commands'', MCPServersJSONPath = ''.mcp.json'',
      Settings = Some (claude_Update sys)\<rparr>"

section \<open>Package core: the generation context\<close>

record GenerationContext =
  Prefetched :: "string \<rightharpoonup> FetchedData"

text \<open>\<^verbatim>\<open>GetPrefetched\<close> is nil-safe; reading a nil map finds nothing.\<close>

definition GetPrefetched :: "GenerationContext option \<Rightarrow> string \<rightharpoonup> FetchedData" where
  "GetPrefetched g = (case g of None \<Rightarrow> Map.empty | Some c \<Rightarrow> Prefetched c)"

section \<open>Package generators: resolving content\<close>

datatype CombinedContextSource_Item =
    Item_Text string
  | Item_Cmd string
  | Item_Github "GitReference option"
  | Item_PrefetchId string
  | Item_not_set

record CombinedContextSource =
  GetItems :: "CombinedContextSource_Item option list"

datatype ContextFrom =
    ContextFrom_Text string
  | ContextFrom_Cmd string
  | ContextFrom_Github "GitReference option"
  | ContextFrom_Combined "CombinedContextSource option"
  | ContextFrom_PrefetchId string
  | ContextFrom_not_set

record ContextEntry =
  Entry_GetPath :: string
  Entry_GetFrom :: "ContextFrom option"

record adcp_Context =
  Context_GetEntries :: "ContextEntry option list"

definition prefetch_lookup :: "GenerationContext option \<Rightarrow> string \<Rightarrow> string result" where
  "prefetch_lookup genCtx ident =
     (case GetPrefetched genCtx ident of
        None \<Rightarrow> Inl (''prefetch id ['' @ ident @ ''] not found'')
      | Some d \<Rightarrow> Inr (GetData d))"

text \<open>
  \<^verbatim>\<open>Context.fetchCombinedItem\<close>, in the version that takes the generation context. The older
  copy of the package has no prefetch case and calls its own \<^verbatim>\<open>executeCommand\<close> and
  \<^verbatim>\<open>fetchGithub\<close>; its \<^verbatim>\<open>fetchCombined\<close> has the same loop.
\<close>

definition fetchCombinedItem ::
    "'w sys \<Rightarrow> GenerationContext option \<Rightarrow> CombinedContextSource_Item option \<Rightarrow> 'w \<Rightarrow> string result \<times> 'w" where
  "fetchCombinedItem sys genCtx item w =
     (case item of
        None \<Rightarrow> (Inl ''combined item cannot be nil'', w)
      | Some (Item_Text t) \<Rightarrow> (Inr t, w)
      | Some (Item_Cmd c) \<Rightarrow> ExecuteCommand sys c w
      | Some (Item_Github r) \<Rightarrow> FetchGithub sys r w
      | Some (Item_PrefetchId p) \<Rightarrow> (prefetch_lookup genCtx p, w)
      | Some Item_not_set \<Rightarrow> (Inl ''unknown or unset combined item type'', w))"

text \<open>
  The loop of \<^verbatim>\<open>Context.fetchCombined\<close>: \<open>i\<close> is the index of the next item and \<open>builder\<close> the
  content of the \<^verbatim>\<open>strings.Builder\<close>.
\<close>

fun fetchCombined_loop ::
    "'w sys \<Rightarrow> GenerationContext option \<Rightarrow> nat \<Rightarrow> string \<Rightarrow> CombinedContextSource_Item option list
       \<Rightarrow> 'w \<Rightarrow> string result \<times> 'w" where
  "fetchCombined_loop sys genCtx i builder [] w = (Inr builder, w)"
| "fetchCombined_loop sys genCtx i builder (item # items) w =
     (case fetchCombinedItem sys genCtx item w of
        (Inl err, w') \<Rightarrow> (Inl (''failed to fetch combined item '' @ show_nat i @ '': '' @ err), w')
      | (Inr content, w') \<Rightarrow> fetchCombined_loop sys genCtx (Suc i) (builder @ content) items w')"

definition fetchCombined ::
    "'w sys \<Rightarrow> GenerationContext option \<Rightarrow> CombinedContextSource option \<Rightarrow> 'w \<Rightarrow> string result \<times> 'w" where
  "fetchCombined sys genCtx combined w =
     (case combined of
        None \<Rightarrow> (Inl ''combined source cannot be nil'', w)
      | Some c \<Rightarrow>
          if length (GetItems c) = 0 then (Inr [], w)
          else fetchCombined_loop sys genCtx 0 [] (GetItems c) w)"

definition fetchContent ::
    "'w sys \<Rightarrow> GenerationContext option \<Rightarrow> ContextFrom option \<Rightarrow> 'w \<Rightarrow> string result \<times> 'w" where
  "fetchContent sys genCtx src w =
     (case src of
        None \<Rightarrow> (Inl ''from source cannot be nil'', w)
      | Some (ContextFrom_Text t) \<Rightarrow> (Inr t, w)
      | Some (ContextFrom_Cmd c) \<Rightarrow> ExecuteCommand sys c w
      | Some (ContextFrom_Github r) \<Rightarrow> FetchGithub sys r w
      | Some (ContextFrom_Combined c) \<Rightarrow> fetchCombined sys genCtx c w
      | Some (ContextFrom_PrefetchId p) \<Rightarrow> (prefetch_lookup genCtx p, w)
      | Some ContextFrom_not_set \<Rightarrow> (Inl ''unknown or unset context source type'', w))"

definition entry_path :: "ContextEntry option \<Rightarrow> string" where
  "entry_path e = (case e of None \<Rightarrow> [] | Some x \<Rightarrow> Entry_GetPath x)"

definition entry_from :: "ContextEntry option \<Rightarrow> ContextFrom option" where
  "entry_from e = (case e of None \<Rightarrow> None | Some x \<Rightarrow> Entry_GetFrom x)"

definition materializeEntry ::
    "'w sys \<Rightarrow> GenerationContext option \<Rightarrow> ContextEntry option \<Rightarrow> 'w \<Rightarrow> Entry result \<times> 'w" where
  "materializeEntry sys genCtx entry w =
     (if entry_path entry = [] then (Inl ''entry path cannot be empty'', w)
      else if entry_from entry = None then (Inl ''entry must have a 'from' source'', w)
      else case fetchContent sys genCtx (entry_from entry) w of
             (Inl err, w') \<Rightarrow> (Inl (''failed to fetch content: '' @ err), w')
           | (Inr content, w') \<Rightarrow> (Inr \<lparr>Path = entry_path entry, Content = Verbatim content\<rparr>, w'))"

fun Context_Materialize_loop ::
    "'w sys \<Rightarrow> GenerationContext option \<Rightarrow> ContextEntry option list \<Rightarrow> Entry list \<Rightarrow> 'w
       \<Rightarrow> Entry list result \<times> 'w" where
  "Context_Materialize_loop sys genCtx [] resultEntries w = (Inr resultEntries, w)"
| "Context_Materialize_loop sys genCtx (entry # entries) resultEntries w =
     (case materializeEntry sys genCtx entry w of
        (Inl err, w') \<Rightarrow>
          (Inl (''failed to materialize entry for path '' @ entry_path entry @ '': '' @ err), w')
      | (Inr materializedEntry, w') \<Rightarrow>
          Context_Materialize_loop sys genCtx entries (resultEntries @ [materializedEntry]) w')"

text \<open>\<^verbatim>\<open>Context.Materialize\<close>; a nil list of entries is the empty list.\<close>

definition Context_Materialize ::
    "'w sys \<Rightarrow> adcp_Context option \<Rightarrow> GenerationContext option \<Rightarrow> 'w \<Rightarrow> Entry list result \<times> 'w" where
  "Context_Materialize sys contextMsg genCtx w =
     (case contextMsg of
        None \<Rightarrow> (Inl ''context cannot be nil'', w)
      | Some c \<Rightarrow> Context_Materialize_loop sys genCtx (Context_GetEntries c) [] w)"

section \<open>Package prefetch\<close>

datatype PrefetchEntry = PrefetchEntry_Cmd string | PrefetchEntry_not_set

record Prefetch =
  Prefetch_GetEntries :: "PrefetchEntry option list"

text \<open>
  \<^verbatim>\<open>Processor.processEntry\<close>. The text that \<^verbatim>\<open>%v\<close> prints for the case of an entry with no
  type set comes from generated code; it is the parameter \<open>unset\<close>.
\<close>

definition processEntry :: "'w sys \<Rightarrow> string \<Rightarrow> PrefetchEntry \<Rightarrow> 'w \<Rightarrow> string result \<times> 'w" where
  "processEntry sys unset entry w =
     (case entry of
        PrefetchEntry_Cmd cmd \<Rightarrow>
          if cmd = [] then (Inl ''cmd cannot be empty'', w)
          else (case ExecuteCommand sys cmd w of
                  (Inl err, w') \<Rightarrow> (Inl (''command execution failed: '' @ err), w')
                | (Inr d, w') \<Rightarrow> (Inr d, w'))
      | PrefetchEntry_not_set \<Rightarrow>
          (Inl (''unknown or unset prefetch entry type ['' @ unset @ '']''), w))"

text \<open>The loop of \<^verbatim>\<open>Processor.Process\<close>: \<open>i\<close> is the index of the next entry.\<close>

fun Process_loop ::
    "'w sys \<Rightarrow> string \<Rightarrow> nat \<Rightarrow> (string \<rightharpoonup> FetchedData) \<Rightarrow> PrefetchEntry option list \<Rightarrow> 'w
       \<Rightarrow> (string \<rightharpoonup> FetchedData) result \<times> 'w" where
  "Process_loop sys unset i res [] w = (Inr res, w)"
| "Process_loop sys unset i res (entry # entries) w =
     (case entry of
        None \<Rightarrow> (Inl (''prefetch entry at index '' @ show_nat i @ '' is nil''), w)
      | Some e \<Rightarrow>
          (case processEntry sys unset e w of
             (Inl err, w') \<Rightarrow>
               (Inl (''failed to process entry at index '' @ show_nat i @ '': '' @ err), w')
           | (Inr d, w') \<Rightarrow>
               (case protojson_Unmarshal sys d of
                  Inl err \<Rightarrow> (Inl (''failed to unmarshal prefetch result: '' @ err), w')
                | Inr ds \<Rightarrow>
                    Process_loop sys unset (Suc i)
                      (fold (\<lambda>d r. r(GetId d \<mapsto> d)) ds res) entries w')))"

text \<open>
  \<^verbatim>\<open>Processor.Process\<close>. The nil map it returns for an empty list of entries reads as the
  empty map. A nil \<^verbatim>\<open>Prefetch\<close> has the empty list of entries.
\<close>

definition Process ::
    "'w sys \<Rightarrow> string \<Rightarrow> Prefetch option \<Rightarrow> 'w \<Rightarrow> (string \<rightharpoonup> FetchedData) result \<times> 'w" where
  "Process sys unset prefetch w =
     (let entries = (case prefetch of None \<Rightarrow> [] | Some p \<Rightarrow> Prefetch_GetEntries p) in
      if length entries = 0 then (Inr Map.empty, w)
      else Process_loop sys unset 0 Map.empty entries w)"

section \<open>Package recipes: the orchestrator\<close>

record Recipe =
  GetPrefetch :: "Prefetch option"
  GetContext :: "adcp_Context option"
  GetIde :: "Ide option"

text \<open>The interface \<^verbatim>\<open>IDEProvider\<close> is the type of its method \<^verbatim>\<open>Materialize\<close>.\<close>

type_synonym 'w IDEProvider = "Ide option \<Rightarrow> 'w \<Rightarrow> Entry list result \<times> 'w"

text \<open>The three steps of \<^verbatim>\<open>Recipe.Materialize\<close>, each with the error it wraps.\<close>

definition prefetch_step ::
    "'w sys \<Rightarrow> string \<Rightarrow> Recipe \<Rightarrow> 'w \<Rightarrow> GenerationContext result \<times> 'w" where
  "prefetch_step sys unset recipe w =
     (case GetPrefetch recipe of
        None \<Rightarrow> (Inr \<lparr>Prefetched = Map.empty\<rparr>, w)
      | Some pf \<Rightarrow>
          (case Process sys unset (Some pf) w of
             (Inl err, w') \<Rightarrow> (Inl (''failed to process prefetch: '' @ err), w')
           | (Inr entries, w') \<Rightarrow> (Inr \<lparr>Prefetched = entries\<rparr>, w')))"

definition context_step ::
    "'w sys \<Rightarrow> Recipe \<Rightarrow> GenerationContext \<Rightarrow> 'w \<Rightarrow> Entry list result \<times> 'w" where
  "context_step sys recipe genCtx w =
     (case GetContext recipe of
        None \<Rightarrow> (Inr [], w)
      | Some c \<Rightarrow>
          (case Context_Materialize sys (Some c) (Some genCtx) w of
             (Inl err, w') \<Rightarrow> (Inl (''failed to materialize context: '' @ err), w')
           | (Inr entries, w') \<Rightarrow> (Inr entries, w')))"

definition ide_step :: "'w IDEProvider \<Rightarrow> Recipe \<Rightarrow> 'w \<Rightarrow> Entry list result \<times> 'w" where
  "ide_step provider recipe w =
     (case GetIde recipe of
        None \<Rightarrow> (Inr [], w)
      | Some d \<Rightarrow>
          (case provider (Some d) w of
             (Inl err, w') \<Rightarrow> (Inl (''failed to materialize IDE configuration: '' @ err), w')
           | (Inr entries, w') \<Rightarrow> (Inr entries, w')))"

definition Recipe_Materialize ::
    "'w sys \<Rightarrow> string \<Rightarrow> 'w IDEProvider \<Rightarrow> Recipe option \<Rightarrow> 'w \<Rightarrow> Entry list result \<times> 'w" where
  "Recipe_Materialize sys unset provider recipe w =
     (case recipe of
        None \<Rightarrow> (Inl ''recipe cannot be nil'', w)
      | Some r \<Rightarrow>
          (case prefetch_step sys unset r w of
             (Inl err, w1) \<Rightarrow> (Inl err, w1)
           | (Inr genCtx, w1) \<Rightarrow>
               (case context_step sys r genCtx w1 of
                  (Inl err, w2) \<Rightarrow> (Inl err, w2)
                | (Inr contextEntries, w2) \<Rightarrow>
                    (case ide_step provider r w2 of
                       (Inl err, w3) \<Rightarrow> (Inl err, w3)
                     | (Inr ideEntries, w3) \<Rightarrow> (Inr (contextEntries @ ideEntries), w3)))))"

section \<open>Auxiliary functions used in the proofs\<close>

text \<open>The elements of \<open>xs\<close> that are neither in \<open>S\<close> nor earlier in \<open>xs\<close>.\<close>

fun uniq :: "'a set \<Rightarrow> 'a list \<Rightarrow> 'a list" where
  "uniq S [] = []"
| "uniq S (x # xs) = (if x \<in> S then uniq S xs else x # uniq (insert x S) xs)"

text \<open>
  The results of resolving the items of a combined source one after the other, each in the
  world the one before it left: "each item's resolved content". Every item is resolved here,
  also after one has failed.
\<close>

fun resolve_items ::
    "'w sys \<Rightarrow> GenerationContext option \<Rightarrow> CombinedContextSource_Item option list \<Rightarrow> 'w
       \<Rightarrow> string result list" where
  "resolve_items sys genCtx [] w = []"
| "resolve_items sys genCtx (item # items) w =
     (case fetchCombinedItem sys genCtx item w of (r, w') \<Rightarrow> r # resolve_items sys genCtx items w')"

text \<open>The entry that one server of the spec puts into the server mapping, if any.\<close>

definition kept_entry :: "string \<times> McpServer option \<Rightarrow> (string \<times> mcpServerConfig) list" where
  "kept_entry e =
     (case snd e of
        None \<Rightarrow> []
      | Some s \<Rightarrow>
          if s \<noteq> McpServer_not_set
             \<and> (Type (server_config s) \<noteq> [] \<or> Url (server_config s) \<noteq> [] \<or> Command (server_config s) \<noteq> [])
          then [(fst e, server_config s)] else [])"

text \<open>
  The maps that the decoder builds: every key is valid UTF-8, in the environment of a server
  and in the server mapping.
\<close>

definition wf_cfg :: "mcpServerConfig \<Rightarrow> bool" where
  "wf_cfg c = list_all (\<lambda>kv. ValidString (fst kv)) (elems (Env c))"

definition wf_servers :: "mcpServerConfig gomap \<Rightarrow> bool" where
  "wf_servers m = list_all (\<lambda>kv. ValidString (fst kv) \<and> wf_cfg (snd kv)) m"


text \<open>
  A world for the concrete instances: its state counts the commands and requests made. A
  command prints its own text, and fails when it is \<open>false\<close>; a request returns its URL as
  the body; no file exists; the only prefetch output that parses is \<open>{}\<close>, with no data.
\<close>

definition example_sys :: "nat sys" where
  "example_sys =
     \<lparr>CombinedOutput =
        (\<lambda>cmd w. ((cmd, if cmd = ''false'' then Some ''exit status 1'' else None), Suc w)),
      http_Get = (\<lambda>url w. (Response 200 (Inr url), Suc w)),
      ReadFile = (\<lambda>path w. None),
      protojson_Unmarshal = (\<lambda>s. if s = ''{}'' then Inr [] else Inl ''syntax error'')\<rparr>"

section \<open>Properties of mergeUniqueStrings\<close>

lemma merge_loop_uniq:
  "merge_loop (\<lambda>s. s \<in> S, res) xs = (\<lambda>s. s \<in> S \<union> set xs, res @ uniq S xs)"
proof (induction xs arbitrary: S res)
  case Nil
  then show ?case by simp
next
  case (Cons x xs)
  show ?case
  proof (cases "x \<in> S")
    case True
    then have "S \<union> set (x # xs) = S \<union> set xs" by auto
    with True show ?thesis using Cons[of S res] by simp
  next
    case False
    have upd: "(\<lambda>s. s \<in> S)(x := True) = (\<lambda>s. s \<in> insert x S)" by (auto simp: fun_eq_iff)
    have "insert x S \<union> set xs = S \<union> set (x # xs)" by auto
    with False show ?thesis using Cons[of "insert x S" "res @ [x]"] by (simp add: upd)
  qed
qed

lemma uniq_snoc: "uniq S (xs @ [x]) = uniq S xs @ (if x \<in> S \<union> set xs then [] else [x])"
  by (induction xs arbitrary: S) auto

lemma first_occurrences_Nil: "first_occurrences [] = []"
  by (simp add: first_occurrences_def)

lemma first_occurrences_snoc:
  "first_occurrences (xs @ [x]) = first_occurrences xs @ (if x \<in> set xs then [] else [x])"
proof -
  have f: "filter (\<lambda>i. (xs @ [x]) ! i \<notin> set (take i (xs @ [x]))) [0..<length xs]
         = filter (\<lambda>i. xs ! i \<notin> set (take i xs)) [0..<length xs]"
    by (rule filter_cong) (auto simp: nth_append)
  have m: "map (\<lambda>i. (xs @ [x]) ! i) (filter (\<lambda>i. xs ! i \<notin> set (take i xs)) [0..<length xs])
         = map (\<lambda>i. xs ! i) (filter (\<lambda>i. xs ! i \<notin> set (take i xs)) [0..<length xs])"
    by (rule map_cong) (auto simp: nth_append)
  show ?thesis
    unfolding first_occurrences_def using f m by simp
qed

lemma uniq_empty: "uniq {} xs = first_occurrences xs"
  by (induction xs rule: rev_induct) (auto simp: uniq_snoc first_occurrences_snoc first_occurrences_Nil)

lemma uniq_filter: "uniq S xs = filter (\<lambda>s. s \<notin> S) (uniq {} xs)"
  by (induction xs rule: rev_induct) (auto simp: uniq_snoc)

lemma set_first_occurrences: "set (first_occurrences xs) = set xs"
  by (induction xs rule: rev_induct) (auto simp: first_occurrences_snoc first_occurrences_Nil)

lemma distinct_first_occurrences: "distinct (first_occurrences xs)"
  by (induction xs rule: rev_induct)
     (auto simp: first_occurrences_snoc first_occurrences_Nil set_first_occurrences)

lemma mergeUniqueStrings_eq:
  "mergeUniqueStrings existing new =
     first_occurrences existing @ filter (\<lambda>s. s \<notin> set existing) (first_occurrences new)"
proof -
  have "merge_loop (\<lambda>_. False, []) existing = (\<lambda>s. s \<in> set existing, uniq {} existing)"
    using merge_loop_uniq[of "{}" "[]" existing] by simp
  then show ?thesis
    by (simp add: mergeUniqueStrings_def merge_loop_uniq uniq_empty uniq_filter[of "set existing"])
qed

text \<open>
  Claim C1. For all lists \<open>existing\<close> and \<open>new\<close>, the result of \<open>mergeUniqueStrings\<close> has no
  repeated element and holds exactly the strings of the two lists; it is the first occurrences
  of \<open>existing\<close> in their order, followed by the first occurrences of \<open>new\<close> that are not in
  \<open>existing\<close>, in their order. Merging \<open>["Bash(git status:*)"]\<close> with \<open>["Bash(go test:*)"]\<close>
  gives \<open>["Bash(git status:*)", "Bash(go test:*)"]\<close>.
\<close>

theorem C1_mergeUniqueStrings:
  "distinct (mergeUniqueStrings existing new)
   \<and> set (mergeUniqueStrings existing new) = set existing \<union> set new
   \<and> mergeUniqueStrings existing new =
       first_occurrences existing @ filter (\<lambda>s. s \<notin> set existing) (first_occurrences new)
   \<and> mergeUniqueStrings [''Bash(git status:*)''] [''Bash(go test:*)'']
       = [''Bash(git status:*)'', ''Bash(go test:*)'']"
proof -
  have d: "distinct (mergeUniqueStrings existing new)"
    by (auto simp: mergeUniqueStrings_eq distinct_first_occurrences set_first_occurrences)
  have s: "set (mergeUniqueStrings existing new) = set existing \<union> set new"
    by (auto simp: mergeUniqueStrings_eq set_first_occurrences)
  have e: "mergeUniqueStrings [''Bash(git status:*)''] [''Bash(go test:*)'']
       = [''Bash(git status:*)'', ''Bash(go test:*)'']"
    by (simp add: mergeUniqueStrings_def)
  from d s e show ?thesis using mergeUniqueStrings_eq by blast
qed

section \<open>Properties of ConvertToRawURL\<close>

lemma length_SplitN: "length (SplitN s sep n) \<le> n"
  by (induction n arbitrary: s) (auto split: option.splits)

text \<open>
  Claim C6. The path \<open>https://github.com/org/repo/blob/main/f.md\<close> with no version converts to
  \<open>https://raw.githubusercontent.com/org/repo/main/f.md\<close>; and every path that contains
  \<open>raw.githubusercontent.com\<close> or does not contain \<open>github.com\<close> is returned unchanged, with
  no error.
\<close>

theorem C6_convert_example_and_passthrough:
  "ConvertToRawURL ''https://github.com/org/repo/blob/main/f.md'' None
     = Inr ''https://raw.githubusercontent.com/org/repo/main/f.md''
   \<and> (Contains p ''raw.githubusercontent.com'' \<or> \<not> Contains p ''github.com''
        \<longrightarrow> ConvertToRawURL p v = Inr p)"
proof -
  have "ConvertToRawURL ''https://github.com/org/repo/blob/main/f.md'' None
     = Inr ''https://raw.githubusercontent.com/org/repo/main/f.md''"
    by code_simp
  then show ?thesis by (simp add: ConvertToRawURL_def)
qed

theorem C6_convert_passthrough_witness:
  "Contains ''https://raw.githubusercontent.com/org/repo/main/f.md'' ''raw.githubusercontent.com''
   \<and> ConvertToRawURL ''https://raw.githubusercontent.com/org/repo/main/f.md'' (Some (GitVersion_Tag ''v1''))
       = Inr ''https://raw.githubusercontent.com/org/repo/main/f.md''
   \<and> \<not> Contains ''https://example.com/f.md'' ''github.com''
   \<and> ConvertToRawURL ''https://example.com/f.md'' None = Inr ''https://example.com/f.md''"
proof -
  have a: "Contains ''https://raw.githubusercontent.com/org/repo/main/f.md'' ''raw.githubusercontent.com''"
    by code_simp
  have b: "\<not> Contains ''https://example.com/f.md'' ''github.com''"
    by code_simp
  from a b show ?thesis
    using C6_convert_example_and_passthrough
            [of "''https://raw.githubusercontent.com/org/repo/main/f.md''" "Some (GitVersion_Tag ''v1'')"]
          C6_convert_example_and_passthrough [of "''https://example.com/f.md''" None]
    by blast
qed

text \<open>
  Claim C5, as the code has it. Let \<open>parts\<close> be the segments of a path that contains
  \<open>github.com\<close> and not \<open>raw.githubusercontent.com\<close>, after the scheme and host prefixes are
  stripped and the rest is split on \<open>/\<close> into at most 5 pieces, and let the third segment be
  \<open>blob\<close> or \<open>tree\<close>. With 5 segments the conversion succeeds, with owner, repo, ref and file
  path taken from segments 1, 2, 4 and 5. With 4 segments it fails with
  \<open>invalid github path format\<close>. With exactly 3 segments the blob/tree form is not entered:
  the third segment is the file path, the ref comes from the version, and the conversion
  succeeds.
\<close>

theorem C5_blob_tree_segments:
  assumes "Contains p ''github.com''" and "\<not> Contains p ''raw.githubusercontent.com''"
    and "parts = SplitN (strip_github_prefixes p) ''/'' 5"
    and "3 \<le> length parts"
    and "parts ! 2 = ''blob'' \<or> parts ! 2 = ''tree''"
  shows "ConvertToRawURL p v =
           (if length parts = 5 then Inr (raw_url (parts ! 0) (parts ! 1) (parts ! 3) (parts ! 4))
            else if length parts = 4 then
              Inl (''invalid github path format: '' @ strip_github_prefixes p)
            else Inr (raw_url (parts ! 0) (parts ! 1) (version_ref v) (parts ! 2)))"
proof -
  have le: "length parts \<le> 5"
    using assms(3) length_SplitN by simp
  have conv: "ConvertToRawURL p v =
     (if length parts \<ge> 4 \<and> (parts ! 2 = ''blob'' \<or> parts ! 2 = ''tree'') then
        (if length parts < 5 then Inl (''invalid github path format: '' @ strip_github_prefixes p)
         else Inr (raw_url (parts ! 0) (parts ! 1) (parts ! 3) (parts ! 4)))
      else if length parts \<ge> 3 then
        Inr (raw_url (parts ! 0) (parts ! 1) (version_ref v) (Join (drop 2 parts) ''/''))
      else Inl (''invalid github path format: '' @ strip_github_prefixes p))"
    using assms(1,2) by (simp add: ConvertToRawURL_def Let_def assms(3)[symmetric])
  consider "length parts = 3" | "length parts = 4" | "length parts = 5"
    using le assms(4) by linarith
  then show ?thesis
  proof cases
    case 1
    then obtain a b c where abc: "parts = [a, b, c]"
      by (cases parts; cases "tl parts"; cases "tl (tl parts)"; auto)
    show ?thesis unfolding conv by (simp add: abc)
  next
    case 2
    with assms(5) show ?thesis unfolding conv by simp
  next
    case 3
    with assms(5) show ?thesis unfolding conv by simp
  qed
qed

theorem C5_blob_tree_segments_witness:
  "Contains ''https://github.com/org/repo/tree/v1'' ''github.com''
   \<and> \<not> Contains ''https://github.com/org/repo/tree/v1'' ''raw.githubusercontent.com''
   \<and> SplitN (strip_github_prefixes ''https://github.com/org/repo/tree/v1'') ''/'' 5
       = [''org'', ''repo'', ''tree'', ''v1'']
   \<and> ConvertToRawURL ''https://github.com/org/repo/tree/v1'' None
       = Inl ''invalid github path format: org/repo/tree/v1''"
proof -
  have a: "Contains ''https://github.com/org/repo/tree/v1'' ''github.com''"
    by code_simp
  have b: "\<not> Contains ''https://github.com/org/repo/tree/v1'' ''raw.githubusercontent.com''"
    by code_simp
  have c: "[''org'', ''repo'', ''tree'', ''v1'']
             = SplitN (strip_github_prefixes ''https://github.com/org/repo/tree/v1'') ''/'' 5"
    by code_simp
  have d: "strip_github_prefixes ''https://github.com/org/repo/tree/v1'' = ''org/repo/tree/v1''"
    by code_simp
  have "ConvertToRawURL ''https://github.com/org/repo/tree/v1'' None
          = Inl ''invalid github path format: org/repo/tree/v1''"
    using C5_blob_tree_segments [OF a b c, of None] by (simp add: d)
  with a b c show ?thesis by simp
qed

text \<open>
  The claim as the specification states it fails at \<open>github.com/o/r/blob\<close>: the third segment
  is \<open>blob\<close>, there are 3 segments and not 5, and the conversion succeeds.
\<close>

theorem C5_three_segments_counterexample:
  "Contains ''github.com/o/r/blob'' ''github.com''
   \<and> \<not> Contains ''github.com/o/r/blob'' ''raw.githubusercontent.com''
   \<and> SplitN (strip_github_prefixes ''github.com/o/r/blob'') ''/'' 5 = [''o'', ''r'', ''blob'']
   \<and> ConvertToRawURL ''github.com/o/r/blob'' None
       = Inr ''https://raw.githubusercontent.com/o/r/main/blob''"
  by code_simp

section \<open>Properties of the UTF-8 coercion\<close>

lemma byte_in_length: "byte_in lo hi s i \<Longrightarrow> i < length s"
  by (simp add: byte_in_def)

lemma rune_width_le: "rune_width s \<le> length s"
proof (cases s)
  case Nil
  then show ?thesis by (simp add: rune_width_def)
next
  case (Cons a r)
  have 2: "byte_in l h s 1 \<Longrightarrow> 2 \<le> length s" for l h using byte_in_length[of l h s 1] by simp
  have 3: "byte_in l h s 2 \<Longrightarrow> 3 \<le> length s" for l h using byte_in_length[of l h s 2] by simp
  have 4: "byte_in l h s 3 \<Longrightarrow> 4 \<le> length s" for l h using byte_in_length[of l h s 3] by simp
  have 1: "1 \<le> length s" using Cons by simp
  show ?thesis
    unfolding rune_width_def Cons list.case Let_def
    using 1 2 3 4 unfolding Cons
    by (auto split: if_splits)
qed

lemma byte_in_prefix:
  "i < w \<Longrightarrow> w \<le> length s \<Longrightarrow> byte_in lo hi (take w s @ t) i = byte_in lo hi s i"
  by (simp add: byte_in_def nth_append)

lemma rune_width_prefix:
  assumes "rune_width s = w" and "0 < w"
  shows "rune_width (take w s @ t) = w"
proof -
  have le: "w \<le> length s" using assms(1) rune_width_le[of s] by simp
  obtain a r where s: "s = a # r" using assms by (cases s) (auto simp: rune_width_def)
  obtain w' where w: "w = Suc w'" using assms(2) by (cases w) auto
  have hd: "take w s @ t = a # (take w' r @ t)" using s w by simp
  have b0: "byte_in lo hi (take w s @ t) i = byte_in lo hi s i" if "i < w" for i lo hi
    using byte_in_prefix[OF that le] .
  have b: "byte_in lo hi (a # (take w' r @ t)) i = byte_in lo hi (a # r) i" if "i < w" for i lo hi
    using b0[OF that, of lo hi] unfolding hd unfolding s .
  have i1: "1 < w \<Longrightarrow> byte_in lo hi (a # (take w' r @ t)) 1 = byte_in lo hi (a # r) 1" for lo hi
    using b[of 1] by simp
  have i2: "2 < w \<Longrightarrow> byte_in lo hi (a # (take w' r @ t)) 2 = byte_in lo hi (a # r) 2" for lo hi
    using b[of 2] by simp
  have i3: "3 < w \<Longrightarrow> byte_in lo hi (a # (take w' r @ t)) 3 = byte_in lo hi (a # r) 3" for lo hi
    using b[of 3] by simp
  show ?thesis
    using assms i1 i2 i3 unfolding hd unfolding s rune_width_def list.case Let_def
    by (auto split: if_splits)
qed

lemma rune_width_replacement: "rune_width (CHR 0xEF # CHR 0xBF # CHR 0xBD # t) = 3"
  by (simp add: rune_width_def byte_in_def)

lemma coerce_replacement:
  "coerce_utf8 (CHR 0xEF # CHR 0xBF # CHR 0xBD # t) = CHR 0xEF # CHR 0xBF # CHR 0xBD # coerce_utf8 t"
  by (subst coerce_utf8.simps) (simp add: rune_width_replacement)

lemma coerce_valid_head:
  assumes "rune_width s = w" and "0 < w"
  shows "coerce_utf8 (take w s @ t) = take w s @ coerce_utf8 t"
proof -
  have le: "w \<le> length s" using assms(1) rune_width_le[of s] by simp
  have sne: "s \<noteq> []" using le assms(2) by auto
  have rw: "rune_width (take w s @ t) = w" by (rule rune_width_prefix[OF assms])
  have tk: "take w (take w s @ t) = take w s" using le by simp
  have dr: "drop w (take w s @ t) = t" using le by simp
  have ne: "take w s @ t \<noteq> []" using sne assms(2) by simp
  have "coerce_utf8 (take w s @ t)
          = take (rune_width (take w s @ t)) (take w s @ t)
            @ coerce_utf8 (drop (rune_width (take w s @ t)) (take w s @ t))"
    using sne rw assms(2) by (subst coerce_utf8.simps) simp
  then show ?thesis unfolding rw tk dr .
qed

lemma coerce_utf8_idem: "coerce_utf8 (coerce_utf8 s) = coerce_utf8 s"
proof (induction s rule: coerce_utf8.induct)
  case (1 s)
  show ?case
  proof (cases "s = []")
    case True
    then show ?thesis by (simp add: coerce_utf8.simps)
  next
    case ne: False
    show ?thesis
    proof (cases "rune_width s = 0")
      case True
      have e: "coerce_utf8 s = CHR 0xEF # CHR 0xBF # CHR 0xBD # coerce_utf8 (tl s)"
        by (subst coerce_utf8.simps) (simp add: ne True)
      show ?thesis
        unfolding e coerce_replacement using "1.IH"(1)[OF ne True] by simp
    next
      case False
      have e: "coerce_utf8 s = take (rune_width s) s @ coerce_utf8 (drop (rune_width s) s)"
        by (subst coerce_utf8.simps) (simp add: ne False)
      show ?thesis
        unfolding e using coerce_valid_head[OF refl, of s] False "1.IH"(2)[OF ne False] by simp
    qed
  qed
qed

lemma ValidString_coerce: "ValidString (coerce_utf8 s)"
  by (simp add: ValidString_def coerce_utf8_idem)

lemma coerce_Nil: "coerce_utf8 [] = []"
  by (simp add: coerce_utf8.simps)

lemma coerce_eq_Nil: "coerce_utf8 s = [] \<longleftrightarrow> s = []"
proof (cases "s = []")
  case True
  then show ?thesis by (simp add: coerce_Nil)
next
  case False
  have "0 < rune_width s \<Longrightarrow> take (rune_width s) s \<noteq> []" using False by (cases s) auto
  then show ?thesis using False
    by (subst coerce_utf8.simps) auto
qed

section \<open>Reading back what encoding/json wrote\<close>

lemma foldName_lits:
  "foldName ''type'' = ''TYPE''" "foldName ''command'' = ''COMMAND''" "foldName ''args'' = ''ARGS''"
  "foldName ''env'' = ''ENV''" "foldName ''url'' = ''URL''" "foldName ''mcpServers'' = ''MCPSERVERS''"
  by code_simp+

lemma coerce_lits:
  "coerce_utf8 ''type'' = ''type''" "coerce_utf8 ''command'' = ''command''" "coerce_utf8 ''args'' = ''args''"
  "coerce_utf8 ''env'' = ''env''" "coerce_utf8 ''url'' = ''url''" "coerce_utf8 ''mcpServers'' = ''mcpServers''"
  by code_simp+

lemma dec_fields_append:
  "dec_fields step (xs @ ys) c = (case dec_fields step xs c of None \<Rightarrow> None | Some c' \<Rightarrow> dec_fields step ys c')"
  by (induction xs arbitrary: c) (auto split: option.splits)

lemma dec_enc_string: "dec_string cur (enc_string s) = Some (coerce_utf8 s)"
  by (simp add: dec_string_def enc_string_def coerce_utf8_idem)

lemma dec_string_elems_enc: "dec_string_elems [] (map enc_string xs) = Some (map coerce_utf8 xs)"
  by (induction xs) (auto simp: dec_enc_string)

lemma map_keys_eq: "map_keys m = sorted_list_of_set (dom (map_of m))"
  using sorted_list_of_set_sort_remdups[of "map fst m"]
  by (simp add: map_keys_def dom_map_of_conv_image_fst)

lemma set_map_keys: "set (map_keys m) = dom (map_of m)"
  by (simp add: map_keys_def dom_map_of_conv_image_fst)

lemma enc_map_cong:
  assumes "map_option enc \<circ> map_of m = map_option enc' \<circ> map_of m'"
  shows "enc_map enc m = enc_map enc' m'"
proof -
  have "dom (map_option enc \<circ> map_of m) = dom (map_option enc' \<circ> map_of m')"
    using assms by simp
  then have d: "dom (map_of m) = dom (map_of m')"
    by (simp add: dom_def)
  then have k: "map_keys m = map_keys m'"
    by (simp add: map_keys_eq)
  have "map (\<lambda>k. (coerce_utf8 k, enc (the (map_of m k)))) (map_keys m)
      = map (\<lambda>k. (coerce_utf8 k, enc' (the (map_of m' k)))) (map_keys m)"
  proof (rule map_cong[OF refl])
    fix k assume "k \<in> set (map_keys m)"
    then have km: "k \<in> dom (map_of m)" by (simp add: set_map_keys)
    then obtain v where v: "map_of m k = Some v" by auto
    from km d obtain v' where v': "map_of m' k = Some v'" by auto
    from assms have "(map_option enc \<circ> map_of m) k = (map_option enc' \<circ> map_of m') k" by simp
    with v v' show "(coerce_utf8 k, enc (the (map_of m k))) = (coerce_utf8 k, enc' (the (map_of m' k)))"
      by simp
  qed
  then show ?thesis by (simp add: enc_map_def k)
qed

lemma dec_map_entries_enc:
  assumes "\<And>k. k \<in> set ks \<Longrightarrow> d (enc (f k)) = Some (n (f k))"
    and "\<And>k. k \<in> set ks \<Longrightarrow> ValidString k"
  shows "\<exists>m'. dec_map_entries d (map (\<lambda>k. (coerce_utf8 k, enc (f k))) ks) m = Some m'
            \<and> map_of m' = (\<lambda>k. if k \<in> set ks then Some (n (f k)) else map_of m k)"
  using assms
proof (induction ks arbitrary: m)
  case Nil
  then show ?case by simp
next
  case (Cons k ks)
  have vk: "coerce_utf8 k = k" using Cons.prems(2)[of k] by (simp add: ValidString_def)
  have dk: "d (enc (f k)) = Some (n (f k))" using Cons.prems(1)[of k] by simp
  obtain m' where m': "dec_map_entries d (map (\<lambda>k. (coerce_utf8 k, enc (f k))) ks) (AList.update k (n (f k)) m) = Some m'"
     "map_of m' = (\<lambda>k'. if k' \<in> set ks then Some (n (f k')) else map_of (AList.update k (n (f k)) m) k')"
    using Cons.IH[of "AList.update k (n (f k)) m"] Cons.prems by auto
  have "map_of m' = (\<lambda>k'. if k' \<in> set (k # ks) then Some (n (f k')) else map_of m k')"
    unfolding m'(2) by (auto simp: fun_eq_iff update_conv')
  with m'(1) show ?case by (simp add: dk vk)
qed

lemma dec_type_member:
  "dec_fields mcpServerConfig_member (omitempty_string ''type'' s) c
     = Some (if s = [] then c else c\<lparr>Type := coerce_utf8 s\<rparr>)"
  by (simp add: omitempty_string_def mcpServerConfig_member_def foldName_lits coerce_lits dec_enc_string
        del: foldName.simps)

lemma dec_command_member:
  "dec_fields mcpServerConfig_member (omitempty_string ''command'' s) c
     = Some (if s = [] then c else c\<lparr>Command := coerce_utf8 s\<rparr>)"
  by (simp add: omitempty_string_def mcpServerConfig_member_def foldName_lits coerce_lits dec_enc_string
        del: foldName.simps)

lemma dec_url_member:
  "dec_fields mcpServerConfig_member (omitempty_string ''url'' s) c
     = Some (if s = [] then c else c\<lparr>Url := coerce_utf8 s\<rparr>)"
  by (simp add: omitempty_string_def mcpServerConfig_member_def foldName_lits coerce_lits dec_enc_string
        del: foldName.simps)

lemma dec_args_member:
  assumes "Args c = NilSlice"
  shows "dec_fields mcpServerConfig_member (omitempty_strings ''args'' a) c
     = Some (if slice_elems a = [] then c else c\<lparr>Args := Slice (map coerce_utf8 (slice_elems a)) []\<rparr>)"
  using assms
  by (simp add: omitempty_strings_def mcpServerConfig_member_def foldName_lits coerce_lits
        dec_string_slice_def enc_strings_def dec_string_elems_enc backing_def del: foldName.simps)

lemma enc_string_coerce: "enc_string (coerce_utf8 s) = enc_string s"
  by (simp add: enc_string_def coerce_utf8_idem)

lemma omitempty_string_coerce: "omitempty_string name (coerce_utf8 s) = omitempty_string name s"
  by (simp add: omitempty_string_def enc_string_coerce coerce_eq_Nil)

lemma omitempty_strings_coerce:
  assumes "slice_elems a' = map coerce_utf8 (slice_elems a)"
  shows "omitempty_strings name a' = omitempty_strings name a"
  using assms by (simp add: omitempty_strings_def enc_strings_def enc_string_coerce)

lemma list_all_update:
  "list_all P m \<Longrightarrow> P (k, v) \<Longrightarrow> list_all P (AList.update k v m)"
  by (induction m) auto

lemma dec_map_entries_wf:
  assumes "dec_map_entries d kvs m = Some m'"
    and "list_all (\<lambda>kv. ValidString (fst kv) \<and> Q (snd kv)) m"
    and "\<And>x v. d x = Some v \<Longrightarrow> Q v"
  shows "list_all (\<lambda>kv. ValidString (fst kv) \<and> Q (snd kv)) m'"
  using assms(1,2)
proof (induction kvs arbitrary: m)
  case Nil
  then show ?case by simp
next
  case (Cons kx kvs)
  obtain k x where kx: "kx = (k, x)" by (cases kx)
  from Cons.prems(1) obtain v where v: "d x = Some v"
    and r: "dec_map_entries d kvs (AList.update (coerce_utf8 k) v m) = Some m'"
    by (auto simp: kx split: option.splits)
  have "list_all (\<lambda>kv. ValidString (fst kv) \<and> Q (snd kv)) (AList.update (coerce_utf8 k) v m)"
    using Cons.prems(2) assms(3)[OF v] by (intro list_all_update) (simp_all add: ValidString_coerce)
  with r show ?case by (rule Cons.IH)
qed

lemma dec_env_member:
  assumes "Env c = None" and "list_all (\<lambda>kv. ValidString (fst kv)) (elems e)"
  shows "\<exists>e'. dec_fields mcpServerConfig_member (omitempty_string_map ''env'' e) c
          = Some (if map_keys (elems e) = [] then c else c\<lparr>Env := Some e'\<rparr>)
        \<and> map_of e' = map_option coerce_utf8 \<circ> map_of (elems e)"
proof -
  have vk: "ValidString k" if "k \<in> set (map_keys (elems e))" for k
  proof -
    from that have "k \<in> fst ` set (elems e)" by (simp add: map_keys_def)
    with assms(2) show ?thesis by (auto simp: list_all_iff)
  qed
  obtain m' where m': "dec_map_entries (dec_string [])
       (map (\<lambda>k. (coerce_utf8 k, enc_string (the (map_of (elems e) k)))) (map_keys (elems e))) [] = Some m'"
    and mo: "map_of m' = (\<lambda>k. if k \<in> set (map_keys (elems e)) then Some (coerce_utf8 (the (map_of (elems e) k))) else map_of [] k)"
    using dec_map_entries_enc[of "map_keys (elems e)" "dec_string []" enc_string "\<lambda>k. the (map_of (elems e) k)" coerce_utf8 "[]"] vk
    by (auto simp: dec_enc_string)
  have mo': "map_of m' = map_option coerce_utf8 \<circ> map_of (elems e)"
    unfolding mo by (auto simp: fun_eq_iff set_map_keys domIff)
  show ?thesis
  proof (cases "map_keys (elems e) = []")
    case True
    then have "dom (map_of (elems e)) = {}" using set_map_keys[of "elems e"] by simp
    then have "map_of (elems e) = Map.empty" by simp
    with True show ?thesis
      by (intro exI[of _ "[]"]) (simp add: omitempty_string_map_def)
  next
    case False
    have "dec_fields mcpServerConfig_member (omitempty_string_map ''env'' e) c = Some (c\<lparr>Env := Some m'\<rparr>)"
      using False m' assms(1)
      by (simp add: omitempty_string_map_def mcpServerConfig_member_def foldName_lits coerce_lits dec_map_def
            enc_map_def elems_def del: foldName.simps)
    with False mo' show ?thesis by auto
  qed
qed

lemma enc_cfg_cong:
  assumes "Type c' = coerce_utf8 (Type c)" "Command c' = coerce_utf8 (Command c)" "Url c' = coerce_utf8 (Url c)"
    "slice_elems (Args c') = map coerce_utf8 (slice_elems (Args c))"
    "map_option enc_string \<circ> map_of (elems (Env c')) = map_option enc_string \<circ> map_of (elems (Env c))"
  shows "enc_mcpServerConfig c' = enc_mcpServerConfig c"
proof -
  have "dom (map_option enc_string \<circ> map_of (elems (Env c'))) = dom (map_option enc_string \<circ> map_of (elems (Env c)))"
    using assms(5) by simp
  then have "dom (map_of (elems (Env c'))) = dom (map_of (elems (Env c)))"
    by (simp add: dom_def)
  then have k: "map_keys (elems (Env c')) = map_keys (elems (Env c))"
    by (simp add: map_keys_eq)
  have "enc_map enc_string (elems (Env c')) = enc_map enc_string (elems (Env c))"
    by (rule enc_map_cong) (rule assms(5))
  with k have e: "omitempty_string_map ''env'' (Env c') = omitempty_string_map ''env'' (Env c)"
    by (simp add: omitempty_string_map_def)
  show ?thesis
    unfolding enc_mcpServerConfig_def assms(1,2,3) omitempty_string_coerce e
      omitempty_strings_coerce[OF assms(4)] by (rule refl)
qed

lemma dec_enc_mcpServerConfig:
  assumes "wf_cfg c"
  shows "\<exists>c'. dec_struct mcpServerConfig_member mcpServerConfig_zero (enc_mcpServerConfig c) = Some c'
       \<and> enc_mcpServerConfig c' = enc_mcpServerConfig c"
proof -
  define c1 where "c1 = (if Type c = [] then mcpServerConfig_zero else mcpServerConfig_zero\<lparr>Type := coerce_utf8 (Type c)\<rparr>)"
  define c2 where "c2 = (if Command c = [] then c1 else c1\<lparr>Command := coerce_utf8 (Command c)\<rparr>)"
  define c3 where "c3 = (if slice_elems (Args c) = [] then c2
                         else c2\<lparr>Args := Slice (map coerce_utf8 (slice_elems (Args c))) []\<rparr>)"
  have a2: "Args c2 = NilSlice"
    by (simp add: c2_def c1_def mcpServerConfig_zero_def)
  have e3: "Env c3 = None"
    by (simp add: c3_def c2_def c1_def mcpServerConfig_zero_def)
  have wf: "list_all (\<lambda>kv. ValidString (fst kv)) (elems (Env c))"
    using assms by (simp add: wf_cfg_def)
  obtain e' where e': "dec_fields mcpServerConfig_member (omitempty_string_map ''env'' (Env c)) c3
          = Some (if map_keys (elems (Env c)) = [] then c3 else c3\<lparr>Env := Some e'\<rparr>)"
     and me: "map_of e' = map_option coerce_utf8 \<circ> map_of (elems (Env c))"
    using dec_env_member[OF e3 wf] by blast
  define c4 where "c4 = (if map_keys (elems (Env c)) = [] then c3 else c3\<lparr>Env := Some e'\<rparr>)"
  define c5 where "c5 = (if Url c = [] then c4 else c4\<lparr>Url := coerce_utf8 (Url c)\<rparr>)"
  have dec: "dec_struct mcpServerConfig_member mcpServerConfig_zero (enc_mcpServerConfig c) = Some c5"
    unfolding dec_struct_def enc_mcpServerConfig_def
    by (simp add: dec_fields_append dec_type_member dec_command_member dec_args_member[OF a2] dec_url_member
          e' c1_def[symmetric] c2_def[symmetric] c3_def[symmetric] c4_def[symmetric] c5_def[symmetric])
  have t: "Type c5 = coerce_utf8 (Type c)" "Command c5 = coerce_utf8 (Command c)" "Url c5 = coerce_utf8 (Url c)"
      "slice_elems (Args c5) = map coerce_utf8 (slice_elems (Args c))"
    by (auto simp: c5_def c4_def c3_def c2_def c1_def mcpServerConfig_zero_def slice_elems_def coerce_Nil)
  have emp: "map_keys (elems (Env c)) = [] \<Longrightarrow> map_of (elems (Env c)) = Map.empty"
  proof -
    assume "map_keys (elems (Env c)) = []"
    then have "dom (map_of (elems (Env c))) = {}" using set_map_keys[of "elems (Env c)"] by simp
    then show ?thesis by simp
  qed
  have ee: "map_option enc_string \<circ> (map_option coerce_utf8 \<circ> m) = map_option enc_string \<circ> m" for m :: "string \<rightharpoonup> string"
    by (auto simp: fun_eq_iff enc_string_coerce option.map_comp comp_def)
  have "map_option enc_string \<circ> map_of (elems (Env c5)) = map_option enc_string \<circ> map_of (elems (Env c))"
  proof (cases "map_keys (elems (Env c)) = []")
    case True
    then have "Env c5 = None" by (simp add: c5_def c4_def e3)
    with emp[OF True] show ?thesis by (simp add: elems_def)
  next
    case False
    then have "Env c5 = Some e'" by (simp add: c5_def c4_def)
    then show ?thesis by (simp add: elems_def me ee)
  qed
  with t have "enc_mcpServerConfig c5 = enc_mcpServerConfig c"
    by (intro enc_cfg_cong)
  with dec show ?thesis by blast
qed

lemma dec_fields_inv:
  assumes "\<And>c kv c'. step c kv = Some c' \<Longrightarrow> I c \<Longrightarrow> I c'"
    and "dec_fields step kvs c = Some c'" and "I c"
  shows "I c'"
  using assms(2,3)
proof (induction kvs arbitrary: c)
  case Nil
  then show ?case by simp
next
  case (Cons kv kvs)
  from Cons.prems(1) obtain c1 where s: "step c (coerce_utf8 (fst kv), snd kv) = Some c1"
    and r: "dec_fields step kvs c1 = Some c'"
    by (auto split: option.splits)
  have "I c1" using assms(1)[OF s Cons.prems(2)] .
  with r show ?case by (rule Cons.IH)
qed

lemma mcpServerConfig_member_wf:
  assumes "mcpServerConfig_member c kv = Some c'" and "wf_cfg c"
  shows "wf_cfg c'"
proof (cases "foldName (fst kv) = foldName ''env'' \<and> foldName (fst kv) \<noteq> foldName ''type''
              \<and> foldName (fst kv) \<noteq> foldName ''command'' \<and> foldName (fst kv) \<noteq> foldName ''args''")
  case False
  then have "Env c' = Env c"
    using assms(1)
    by (auto simp: mcpServerConfig_member_def Let_def simp del: foldName.simps split: if_splits)
  with assms(2) show ?thesis by (simp add: wf_cfg_def)
next
  case True
  then obtain x where x: "dec_map (dec_string []) (Env c) (snd kv) = Some x" and c': "c' = c\<lparr>Env := x\<rparr>"
    using assms(1)
    by (auto simp: mcpServerConfig_member_def Let_def simp del: foldName.simps split: if_splits)
  have "list_all (\<lambda>kv. ValidString (fst kv)) (elems x)"
  proof (cases "snd kv")
    case (JObject kvs)
    with x obtain m' where m': "dec_map_entries (dec_string []) kvs (elems (Env c)) = Some m'" and xm: "x = Some m'"
      by (auto simp: dec_map_def)
    have w: "list_all (\<lambda>kv. ValidString (fst kv) \<and> True) (elems (Env c))"
      using assms(2) by (simp add: wf_cfg_def)
    have "list_all (\<lambda>kv. ValidString (fst kv) \<and> True) m'"
      by (rule dec_map_entries_wf[OF m' w]) simp
    then show ?thesis by (simp add: xm elems_def)
  qed (insert x, auto simp: dec_map_def elems_def)
  then show ?thesis by (simp add: wf_cfg_def c')
qed

lemma dec_struct_cfg_wf:
  assumes "dec_struct mcpServerConfig_member mcpServerConfig_zero v = Some c"
  shows "wf_cfg c"
proof -
  have z: "wf_cfg mcpServerConfig_zero"
    by (simp add: wf_cfg_def mcpServerConfig_zero_def elems_def)
  show ?thesis
  proof (cases v)
    case (JObject kvs)
    with assms have "dec_fields mcpServerConfig_member kvs mcpServerConfig_zero = Some c"
      by (simp add: dec_struct_def)
    then show ?thesis using z by (rule dec_fields_inv[rotated, where I = wf_cfg]) (rule mcpServerConfig_member_wf)
  qed (insert assms z, auto simp: dec_struct_def)
qed

lemma mcpJson_member_wf:
  assumes "mcpJson_member cm kv = Some cm'" and "wf_servers (elems (McpServers cm))"
  shows "wf_servers (elems (McpServers cm'))"
proof (cases "foldName (fst kv) = foldName ''mcpServers''")
  case False
  with assms show ?thesis by (simp add: mcpJson_member_def del: foldName.simps)
next
  case True
  then obtain x where x: "dec_map (dec_struct mcpServerConfig_member mcpServerConfig_zero) (McpServers cm) (snd kv) = Some x"
    and c': "cm' = cm\<lparr>McpServers := x\<rparr>"
    using assms(1) by (auto simp: mcpJson_member_def simp del: foldName.simps)
  have "wf_servers (elems x)"
  proof (cases "snd kv")
    case (JObject kvs)
    with x obtain m' where m': "dec_map_entries (dec_struct mcpServerConfig_member mcpServerConfig_zero) kvs (elems (McpServers cm)) = Some m'"
      and xm: "x = Some m'"
      by (auto simp: dec_map_def)
    have "list_all (\<lambda>kv. ValidString (fst kv) \<and> wf_cfg (snd kv)) m'"
      using m' assms(2)[unfolded wf_servers_def] by (rule dec_map_entries_wf) (rule dec_struct_cfg_wf)
    then show ?thesis by (simp add: xm elems_def wf_servers_def)
  qed (insert x, auto simp: dec_map_def elems_def wf_servers_def)
  then show ?thesis by (simp add: c')
qed

lemma existing_mcpJson_wf: "wf_servers (elems (McpServers (existing_mcpJson existing)))"
proof -
  have z: "wf_servers (elems (McpServers mcpJson_zero))"
    by (simp add: wf_servers_def mcpJson_zero_def elems_def)
  have u: "wf_servers (elems (McpServers cm))" if "Unmarshal_mcpJson v mcpJson_zero = Some cm" for v cm
  proof (cases v)
    case (JObject kvs)
    with that have "dec_fields mcpJson_member kvs mcpJson_zero = Some cm"
      by (simp add: Unmarshal_mcpJson_def dec_struct_def)
    then show ?thesis using z
      by (rule dec_fields_inv[rotated, where I = "\<lambda>cm. wf_servers (elems (McpServers cm))"]) (rule mcpJson_member_wf)
  qed (insert that z, auto simp: Unmarshal_mcpJson_def dec_struct_def)
  show ?thesis
    using z u by (auto simp: existing_mcpJson_def split: file_text.splits option.splits)
qed

lemma server_config_wf: "wf_cfg (server_config s)"
  by (auto simp: server_config_def stdio_config_def wf_cfg_def mcpServerConfig_zero_def elems_def Let_def
      split: McpServer.splits option.splits)

lemma add_server_wf:
  assumes "ValidString (fst e)" and "wf_servers m"
  shows "wf_servers (add_server e m)"
proof -
  have "wf_servers (AList.update (fst e) (server_config s) m)" for s
    unfolding wf_servers_def
    using assms(2)[unfolded wf_servers_def] by (rule list_all_update) (simp add: assms(1) server_config_wf)
  with assms(2) show ?thesis
    by (auto simp: add_server_def Let_def split: option.splits McpServer.splits)
qed

lemma fold_add_server_wf:
  assumes "\<forall>e \<in> set ss. ValidString (fst e)" and "wf_servers m"
  shows "wf_servers (fold add_server ss m)"
  using assms by (induction ss arbitrary: m) (simp_all add: add_server_wf)

lemma add_server_map: "\<exists>u. \<forall>m. map_of (add_server e m) = map_of m ++ u"
proof (cases "snd e")
  case None
  then show ?thesis by (intro exI[of _ Map.empty]) (simp add: add_server_def)
next
  case (Some s)
  show ?thesis
  proof (cases "s \<noteq> McpServer_not_set \<and> (Type (server_config s) \<noteq> [] \<or> Url (server_config s) \<noteq> [] \<or> Command (server_config s) \<noteq> [])")
    case True
    then have "\<forall>m. map_of (add_server e m) = map_of m ++ [fst e \<mapsto> server_config s]"
      using Some by (cases s) (auto simp: add_server_def update_conv' Let_def)
    then show ?thesis by blast
  next
    case False
    then have "\<forall>m. map_of (add_server e m) = map_of m ++ Map.empty"
      using Some by (cases s) (auto simp: add_server_def Let_def)
    then show ?thesis by blast
  qed
qed

lemma fold_add_server_map: "\<exists>U. \<forall>m. map_of (fold add_server ss m) = map_of m ++ U"
proof (induction ss)
  case Nil
  show ?case by (intro exI[of _ Map.empty]) simp
next
  case (Cons e ss)
  then obtain U where U: "\<And>m. map_of (fold add_server ss m) = map_of m ++ U" by blast
  obtain u where u: "\<And>m. map_of (add_server e m) = map_of m ++ u"
    using add_server_map[of e] by blast
  have "\<forall>m. map_of (fold add_server (e # ss) m) = map_of m ++ (u ++ U)"
    by (simp add: U u)
  then show ?case by blast
qed

lemma map_option_comp_add:
  "map_option f \<circ> (a ++ b) = (map_option f \<circ> a) ++ (map_option f \<circ> b)"
  by (auto simp: fun_eq_iff map_add_def split: option.splits)

lemma map_add_twice: "(a ++ b) ++ b = a ++ b"
  by (auto simp: fun_eq_iff map_add_def split: option.splits)

lemma unmarshal_marshal:
  assumes "wf_servers m"
  shows "\<exists>m'. Unmarshal_mcpJson (Marshal_mcpJson (cm\<lparr>McpServers := Some m\<rparr>)) mcpJson_zero
           = Some (mcpJson_zero\<lparr>McpServers := Some m'\<rparr>)
       \<and> map_option enc_mcpServerConfig \<circ> map_of m' = map_option enc_mcpServerConfig \<circ> map_of m"
proof -
  let ?d = "dec_struct mcpServerConfig_member mcpServerConfig_zero"
  define n where "n c = the (?d (enc_mcpServerConfig c))" for c
  have n: "?d (enc_mcpServerConfig c) = Some (n c)" and en: "enc_mcpServerConfig (n c) = enc_mcpServerConfig c"
    if "wf_cfg c" for c
    using dec_enc_mcpServerConfig[OF that] by (auto simp: n_def)
  have inm: "(k, the (map_of m k)) \<in> set m" if "k \<in> set (map_keys m)" for k
  proof -
    from that obtain v where "map_of m k = Some v" by (auto simp: set_map_keys)
    then show ?thesis by (auto dest: map_of_SomeD)
  qed
  have vk: "ValidString k" and wc: "wf_cfg (the (map_of m k))" if "k \<in> set (map_keys m)" for k
    using inm[OF that] assms by (auto simp: wf_servers_def list_all_iff)
  obtain m' where m': "dec_map_entries ?d (map (\<lambda>k. (coerce_utf8 k, enc_mcpServerConfig (the (map_of m k)))) (map_keys m)) [] = Some m'"
    and mo: "map_of m' = (\<lambda>k. if k \<in> set (map_keys m) then Some (n (the (map_of m k))) else map_of [] k)"
    using dec_map_entries_enc[of "map_keys m" ?d enc_mcpServerConfig "\<lambda>k. the (map_of m k)" n "[]"] n[OF wc] vk
    by blast
  have e: "map_option enc_mcpServerConfig \<circ> map_of m' = map_option enc_mcpServerConfig \<circ> map_of m"
  proof
    fix k
    show "(map_option enc_mcpServerConfig \<circ> map_of m') k = (map_option enc_mcpServerConfig \<circ> map_of m) k"
    proof (cases "k \<in> set (map_keys m)")
      case True
      then obtain v where v: "map_of m k = Some v" by (auto simp: set_map_keys)
      with wc[OF True] have "wf_cfg v" by simp
      then show ?thesis using True v by (simp add: mo en)
    next
      case False
      then have "map_of m k = None" by (auto simp: set_map_keys)
      with False show ?thesis by (simp add: mo)
    qed
  qed
  have "Unmarshal_mcpJson (Marshal_mcpJson (cm\<lparr>McpServers := Some m\<rparr>)) mcpJson_zero
           = Some (mcpJson_zero\<lparr>McpServers := Some m'\<rparr>)"
    using m'
    by (simp add: Unmarshal_mcpJson_def Marshal_mcpJson_def dec_struct_def mcpJson_member_def
          dec_map_def enc_map_def mcpJson_zero_def elems_def coerce_lits)
  with e show ?thesis by blast
qed

text \<open>
  Claim C2, as the code has it. For every MCP spec that is not nil and whose server names are
  valid UTF-8, and for every content of the existing file, \<open>buildMcpJSON\<close> returns a
  document, and \<open>buildMcpJSON\<close> with the same spec on that document returns the same
  document. Commands and URLs need not be valid UTF-8.
\<close>

theorem C2_buildMcpJSON_idempotent_valid_names:
  assumes "\<forall>e \<in> set (GetServers mcp). ValidString (fst e)"
  shows "\<exists>doc. buildMcpJSON (Some mcp) existing = Inr doc
        \<and> buildMcpJSON (Some mcp) (JSONText doc) = Inr doc"
proof -
  let ?E = "\<lambda>m. map_option enc_mcpServerConfig \<circ> map_of m"
  define cm0 where "cm0 = existing_mcpJson existing"
  define m1 where "m1 = fold add_server (GetServers mcp) (elems (McpServers cm0))"
  define doc where "doc = Marshal_mcpJson (cm0\<lparr>McpServers := Some m1\<rparr>)"
  have first: "buildMcpJSON (Some mcp) existing = Inr doc"
    by (simp add: buildMcpJSON_def Let_def doc_def m1_def cm0_def)
  have wf1: "wf_servers m1"
    unfolding m1_def cm0_def using assms existing_mcpJson_wf by (rule fold_add_server_wf)
  obtain m' where um: "Unmarshal_mcpJson doc mcpJson_zero = Some (mcpJson_zero\<lparr>McpServers := Some m'\<rparr>)"
    and e': "?E m' = ?E m1"
    using unmarshal_marshal[OF wf1, where cm=cm0] unfolding doc_def by blast
  define m2 where "m2 = fold add_server (GetServers mcp) m'"
  have second: "buildMcpJSON (Some mcp) (JSONText doc)
                  = Inr (Marshal_mcpJson (mcpJson_zero\<lparr>McpServers := Some m2\<rparr>))"
    by (simp add: buildMcpJSON_def Let_def existing_mcpJson_def um m2_def elems_def)
  obtain U where U: "\<And>m. map_of (fold add_server (GetServers mcp) m) = map_of m ++ U"
    using fold_add_server_map[of "GetServers mcp"] by blast
  have "?E m2 = ?E m' ++ (map_option enc_mcpServerConfig \<circ> U)"
    by (simp add: m2_def U map_option_comp_add)
  also have "\<dots> = ?E m1 ++ (map_option enc_mcpServerConfig \<circ> U)"
    by (simp add: e')
  also have "\<dots> = ?E m1"
    by (simp add: m1_def U map_option_comp_add map_add_twice)
  finally have "enc_map enc_mcpServerConfig m2 = enc_map enc_mcpServerConfig m1"
    by (rule enc_map_cong)
  then have "Marshal_mcpJson (mcpJson_zero\<lparr>McpServers := Some m2\<rparr>) = doc"
    by (simp add: doc_def Marshal_mcpJson_def)
  with first second show ?thesis by simp
qed

theorem C2_buildMcpJSON_idempotent_valid_names_witness:
  "buildMcpJSON
     (Some \<lparr>GetServers = [(''devplan'', Some (McpServer_Stdio (Some (StdioMcpServer ''devplan mcp''))))]\<rparr>)
     (JSONText (JObject [(''mcpServers'', JObject [(''old'', JObject [(''url'', JString ''u''), (''x'', JNull)])])]))
   = Inr (JObject [(''mcpServers'',
            JObject [(''devplan'',
                      JObject [(''type'', JString ''stdio''), (''command'', JString ''devplan''),
                               (''args'', JArray [JString ''mcp''])]),
                     (''old'', JObject [(''url'', JString ''u'')])])])
   \<and> buildMcpJSON
     (Some \<lparr>GetServers = [(''devplan'', Some (McpServer_Stdio (Some (StdioMcpServer ''devplan mcp''))))]\<rparr>)
     (JSONText (JObject [(''mcpServers'',
            JObject [(''devplan'',
                      JObject [(''type'', JString ''stdio''), (''command'', JString ''devplan''),
                               (''args'', JArray [JString ''mcp''])]),
                     (''old'', JObject [(''url'', JString ''u'')])])]))
   = Inr (JObject [(''mcpServers'',
            JObject [(''devplan'',
                      JObject [(''type'', JString ''stdio''), (''command'', JString ''devplan''),
                               (''args'', JArray [JString ''mcp''])]),
                     (''old'', JObject [(''url'', JString ''u'')])])])"
proof -
  let ?spec = "\<lparr>GetServers = [(''devplan'', Some (McpServer_Stdio (Some (StdioMcpServer ''devplan mcp''))))]\<rparr>"
  let ?old = "JSONText (JObject [(''mcpServers'', JObject [(''old'', JObject [(''url'', JString ''u''), (''x'', JNull)])])])"
  have v: "ValidString ''devplan''"
    by code_simp
  have h: "\<forall>e \<in> set (GetServers ?spec). ValidString (fst e)"
    using v by simp
  obtain doc where d1: "buildMcpJSON (Some ?spec) ?old = Inr doc"
      and d2: "buildMcpJSON (Some ?spec) (JSONText doc) = Inr doc"
    using C2_buildMcpJSON_idempotent_valid_names[OF h, of ?old] by blast
  have c: "buildMcpJSON (Some ?spec) ?old
         = Inr (JObject [(''mcpServers'',
            JObject [(''devplan'',
                      JObject [(''type'', JString ''stdio''), (''command'', JString ''devplan''),
                               (''args'', JArray [JString ''mcp''])]),
                     (''old'', JObject [(''url'', JString ''u'')])])])"
    by code_simp
  show ?thesis
    using d1 d2 unfolding c by simp
qed

text \<open>
  Claim C2 as the specification states it fails on the code. The server name that is the one
  byte 0xFF is not valid UTF-8: the map holds it as it is, and the document names the server
  U+FFFD. Read back, the document gives a map with the key U+FFFD; the spec adds the key 0xFF
  again, and the second document has two members named U+FFFD.
\<close>

theorem C2_invalid_name_counterexample:
  "buildMcpJSON (Some \<lparr>GetServers = [([CHR 0xFF], Some (McpServer_Http (Some (HttpMcpServer ''u''))))]\<rparr>)
     EmptyText
   = Inr (JObject [(''mcpServers'',
            JObject [([CHR 0xEF, CHR 0xBF, CHR 0xBD], JObject [(''type'', JString ''http''), (''url'', JString ''u'')])])])
   \<and> buildMcpJSON (Some \<lparr>GetServers = [([CHR 0xFF], Some (McpServer_Http (Some (HttpMcpServer ''u''))))]\<rparr>)
     (JSONText (JObject [(''mcpServers'',
            JObject [([CHR 0xEF, CHR 0xBF, CHR 0xBD], JObject [(''type'', JString ''http''), (''url'', JString ''u'')])])]))
   = Inr (JObject [(''mcpServers'',
            JObject [([CHR 0xEF, CHR 0xBF, CHR 0xBD], JObject [(''type'', JString ''http''), (''url'', JString ''u'')]),
                     ([CHR 0xEF, CHR 0xBF, CHR 0xBD], JObject [(''type'', JString ''http''), (''url'', JString ''u'')])])])"
  by code_simp

text \<open>
  The document does not depend on the order in which the \<^verbatim>\<open>range\<close> loop visits the servers
  of the spec: two lists of the same entries, each with distinct names, give the same result.
\<close>

lemma add_server_kept: "map_of (add_server e m) = map_of m ++ map_of (kept_entry e)"
proof (cases "snd e")
  case None
  then show ?thesis by (simp add: add_server_def kept_entry_def)
next
  case (Some s)
  then show ?thesis
    by (cases s) (auto simp: add_server_def kept_entry_def update_conv' Let_def)
qed

lemma rev_kept_entry: "rev (kept_entry e) = kept_entry e"
  by (simp add: kept_entry_def split: option.splits)

lemma fold_add_server_kept:
  "map_of (fold add_server ss m) = map_of m ++ map_of (rev (concat (map kept_entry ss)))"
  by (induction ss arbitrary: m) (simp_all add: add_server_kept rev_kept_entry)

lemma fst_kept_entry: "fst ` set (kept_entry e) \<subseteq> {fst e}"
  by (auto simp: kept_entry_def split: option.splits if_splits)

lemma fst_kept_entries: "x \<in> fst ` set (concat (map kept_entry ss)) \<Longrightarrow> x \<in> fst ` set ss"
proof (induction ss)
  case Nil
  then show ?case by simp
next
  case (Cons e ss)
  from Cons.prems have "x \<in> fst ` set (kept_entry e) \<or> x \<in> fst ` set (concat (map kept_entry ss))"
    by auto
  then show ?case
  proof
    assume "x \<in> fst ` set (kept_entry e)"
    then have "x = fst e" using fst_kept_entry[of e] by blast
    then show ?thesis by simp
  next
    assume "x \<in> fst ` set (concat (map kept_entry ss))"
    then have "x \<in> fst ` set ss" by (rule Cons.IH)
    then show ?thesis by simp
  qed
qed

lemma distinct_kept:
  "distinct (map fst ss) \<Longrightarrow> distinct (map fst (concat (map kept_entry ss)))"
proof (induction ss)
  case Nil
  then show ?case by simp
next
  case (Cons e ss)
  have d1: "distinct (map fst (kept_entry e))"
    by (simp add: kept_entry_def split: option.splits)
  have d2: "distinct (map fst (concat (map kept_entry ss)))"
    using Cons by simp
  have n: "fst e \<notin> fst ` set ss" using Cons.prems by simp
  have disj: "fst ` set (kept_entry e) \<inter> fst ` set (concat (map kept_entry ss)) = {}"
  proof (rule ccontr)
    assume "fst ` set (kept_entry e) \<inter> fst ` set (concat (map kept_entry ss)) \<noteq> {}"
    then obtain x where x1: "x \<in> fst ` set (kept_entry e)"
        and x2: "x \<in> fst ` set (concat (map kept_entry ss))" by blast
    from x1 have "x = fst e" using fst_kept_entry[of e] by blast
    moreover from x2 have "x \<in> fst ` set ss" by (rule fst_kept_entries)
    ultimately show False using n by simp
  qed
  have "distinct (map fst (kept_entry e @ concat (map kept_entry ss)))"
    unfolding map_append distinct_append set_map using d1 d2 disj by blast
  then show ?case by simp
qed

lemma buildMcpJSON_range_order:
  assumes "distinct (map fst (GetServers m))" and "distinct (map fst (GetServers m'))"
    and "set (GetServers m') = set (GetServers m)"
  shows "buildMcpJSON (Some m') existing = buildMcpJSON (Some m) existing"
proof -
  let ?k = "\<lambda>x. rev (concat (map kept_entry (GetServers x)))"
  have "set (?k m') = set (?k m)" using assms(3) by simp
  moreover have "distinct (map fst (?k m))" "distinct (map fst (?k m'))"
    using distinct_kept[OF assms(1)] distinct_kept[OF assms(2)] by (simp_all add: rev_map[symmetric])
  ultimately have "map_of (?k m') = map_of (?k m)"
    using map_of_inject_set by blast
  then have "map_of (fold add_server (GetServers m') s) = map_of (fold add_server (GetServers m) s)" for s
    by (simp add: fold_add_server_kept)
  then have "enc_map enc_mcpServerConfig (fold add_server (GetServers m') s)
           = enc_map enc_mcpServerConfig (fold add_server (GetServers m) s)" for s
    by (intro enc_map_cong) simp
  then have "Marshal_mcpJson (c\<lparr>McpServers := Some (fold add_server (GetServers m') s)\<rparr>)
           = Marshal_mcpJson (c\<lparr>McpServers := Some (fold add_server (GetServers m) s)\<rparr>)" for c s
    by (simp add: Marshal_mcpJson_def)
  then show ?thesis
    unfolding buildMcpJSON_def Let_def by simp
qed

section \<open>Properties of the rendered documents\<close>

lemma stdio_env_not_rendered:
  "Env (stdio_config cmd) = Some []
   \<and> json_member ''env'' (enc_mcpServerConfig (stdio_config cmd)) = None"
  by (simp add: json_member_def enc_mcpServerConfig_def stdio_config_def Let_def omitempty_string_def
       omitempty_strings_def omitempty_string_map_def map_keys_def elems_def enc_string_def
       enc_strings_def)

text \<open>
  What is rendered for a stdio server whose command has a first field \<open>p\<close> and further
  fields \<open>r\<close>: type, command and, when there are further fields, args.
\<close>

lemma stdio_config_rendered:
  assumes "Fields cmd = p # r" and "cmd \<noteq> []" and "p \<noteq> []"
  shows "enc_mcpServerConfig (stdio_config cmd) =
           JObject ([(''type'', JString ''stdio''), (''command'', enc_string p)]
                    @ (if r = [] then [] else [(''args'', JArray (map enc_string r))]))"
proof -
  have s: "enc_string ''stdio'' = JString ''stdio''"
    by code_simp
  show ?thesis
    using assms
    by (cases r) (simp_all add: enc_mcpServerConfig_def stdio_config_def Let_def omitempty_string_def
         omitempty_strings_def omitempty_string_map_def map_keys_def elems_def enc_strings_def
         slice_elems_def s)
qed

text \<open>
  Claim C4 fails on the code in its env field. For the scenario of the specification (server
  \<open>devplan\<close> with stdio command \<open>devplan mcp\<close>, over an existing file that is not JSON) the
  document has exactly one server, \<open>devplan\<close>, with type \<open>stdio\<close>, command \<open>devplan\<close> and args
  \<open>["mcp"]\<close>, as the claim says, and no member \<open>env\<close>: the struct holds an empty map there,
  and \<^verbatim>\<open>omitempty\<close> leaves a map of length 0 out of the document.
\<close>

theorem C4_devplan_document_has_no_env:
  "buildMcpJSON
     (Some \<lparr>GetServers = [(''devplan'', Some (McpServer_Stdio (Some (StdioMcpServer ''devplan mcp''))))]\<rparr>)
     InvalidJSON
   = Inr (JObject [(''mcpServers'',
            JObject [(''devplan'',
              JObject [(''type'', JString ''stdio''), (''command'', JString ''devplan''),
                       (''args'', JArray [JString ''mcp''])])])])
   \<and> Env (stdio_config ''devplan mcp'') = Some []
   \<and> json_member ''env''
         (JObject [(''type'', JString ''stdio''), (''command'', JString ''devplan''),
                   (''args'', JArray [JString ''mcp''])]) = None"
  by code_simp

text \<open>
  Claim C10. For every existing content of the settings file, and whatever the permissions,
  server names and command names are, the document that \<open>buildClaudeSettingsJSON\<close> returns has
  \<open>permissions.defaultMode\<close> equal to \<open>acceptEdits\<close> and \<open>enableAllProjectMcpServers\<close> equal
  to true.
\<close>

theorem C10_defaultMode_and_enableAll_overwritten:
  "\<exists>doc perms'. buildClaudeSettingsJSON perms mcpServerNames commandNames existing = Inr doc
      \<and> json_member ''permissions'' doc = Some perms'
      \<and> json_member ''defaultMode'' perms' = Some (JString ''acceptEdits'')
      \<and> json_member ''enableAllProjectMcpServers'' doc = Some (JBool True)"
proof -
  have s: "enc_string ''acceptEdits'' = JString ''acceptEdits''"
    by code_simp
  show ?thesis
    by (simp add: buildClaudeSettingsJSON_def Let_def Marshal_claudeSettings_def json_member_def
          omitempty_string_def omitempty_strings_def omitempty_bool_def s)
qed

section \<open>Properties of the combined source\<close>

lemma length_resolve_items: "length (resolve_items sys g items w) = length items"
  by (induction items arbitrary: w) (auto split: prod.splits)

lemma loop_all_ok:
  "\<forall>r \<in> set (resolve_items sys g items w). isl r = False \<Longrightarrow>
   fst (fetchCombined_loop sys g i b items w) = Inr (b @ concat (map projr (resolve_items sys g items w)))"
proof (induction items arbitrary: i b w)
  case Nil
  then show ?case by simp
next
  case (Cons item items)
  obtain r w' where f: "fetchCombinedItem sys g item w = (r, w')" by (cases "fetchCombinedItem sys g item w")
  with Cons.prems obtain c where c: "r = Inr c" by (cases r) auto
  from Cons.prems f have "\<forall>r \<in> set (resolve_items sys g items w'). isl r = False" by simp
  from Cons.IH[OF this, of "Suc i" "b @ c"] f c show ?case by simp
qed

lemma loop_first_failure:
  "k < length items \<Longrightarrow> resolve_items sys g items w ! k = Inl e \<Longrightarrow>
   (\<forall>j<k. \<not> isl (resolve_items sys g items w ! j)) \<Longrightarrow>
   fst (fetchCombined_loop sys g i b items w) = Inl (''failed to fetch combined item '' @ show_nat (i + k) @ '': '' @ e)"
proof (induction items arbitrary: i b w k)
  case Nil
  then show ?case by simp
next
  case (Cons item items)
  obtain r w' where f: "fetchCombinedItem sys g item w = (r, w')" by (cases "fetchCombinedItem sys g item w")
  show ?case
  proof (cases k)
    case 0
    with Cons.prems f show ?thesis by simp
  next
    case (Suc k')
    from Cons.prems(3) Suc f have "\<not> isl r" by fastforce
    then obtain c where c: "r = Inr c" by (cases r) auto
    have 1: "k' < length items" using Cons.prems(1) Suc by simp
    have 2: "resolve_items sys g items w' ! k' = Inl e" using Cons.prems(2) Suc f by simp
    have 3: "\<forall>j<k'. \<not> isl (resolve_items sys g items w' ! j)"
    proof (intro allI impI)
      fix j assume "j < k'"
      then have "Suc j < k" using Suc by simp
      with Cons.prems(3) have "\<not> isl (resolve_items sys g (item # items) w ! Suc j)" by blast
      with f show "\<not> isl (resolve_items sys g items w' ! j)" by simp
    qed
    from Cons.IH[OF 1 2 3, of "Suc i" "b @ c"] f c Suc show ?thesis by simp
  qed
qed

text \<open>
  Claim C3. A combined source with no items resolves to the empty string, with no error. When
  every item resolves, the content is the concatenation of the items' contents in their
  order, with nothing between them. When item \<open>k\<close> (counted from 0) is the first that fails,
  with error \<open>e\<close>, the result is the error
  \<open>failed to fetch combined item k: e\<close>, and no content.
\<close>

theorem C3_fetchCombined:
  "fst (fetchCombined sys g (Some \<lparr>GetItems = []\<rparr>) w) = Inr []
   \<and> ((\<forall>r \<in> set (resolve_items sys g items w). \<not> isl r) \<longrightarrow>
        fst (fetchCombined sys g (Some \<lparr>GetItems = items\<rparr>) w)
          = Inr (concat (map projr (resolve_items sys g items w))))
   \<and> (k < length items \<and> resolve_items sys g items w ! k = Inl e
        \<and> (\<forall>j<k. \<not> isl (resolve_items sys g items w ! j)) \<longrightarrow>
        fst (fetchCombined sys g (Some \<lparr>GetItems = items\<rparr>) w)
          = Inl (''failed to fetch combined item '' @ show_nat k @ '': '' @ e))"
proof (intro conjI impI)
  show "fst (fetchCombined sys g (Some \<lparr>GetItems = []\<rparr>) w) = Inr []"
    by (simp add: fetchCombined_def)
next
  assume a: "\<forall>r \<in> set (resolve_items sys g items w). \<not> isl r"
  show "fst (fetchCombined sys g (Some \<lparr>GetItems = items\<rparr>) w)
          = Inr (concat (map projr (resolve_items sys g items w)))"
  proof (cases items)
    case Nil
    then show ?thesis by (simp add: fetchCombined_def)
  next
    case (Cons x xs)
    then have "fetchCombined sys g (Some \<lparr>GetItems = items\<rparr>) w = fetchCombined_loop sys g 0 [] items w"
      by (simp add: fetchCombined_def)
    with loop_all_ok[of sys g items w 0 "[]"] a show ?thesis by simp
  qed
next
  assume a: "k < length items \<and> resolve_items sys g items w ! k = Inl e
        \<and> (\<forall>j<k. \<not> isl (resolve_items sys g items w ! j))"
  then have "items \<noteq> []" by auto
  then have "fetchCombined sys g (Some \<lparr>GetItems = items\<rparr>) w = fetchCombined_loop sys g 0 [] items w"
    by (simp add: fetchCombined_def)
  with loop_first_failure[of k items sys g w e 0 "[]"] a
  show "fst (fetchCombined sys g (Some \<lparr>GetItems = items\<rparr>) w)
          = Inl (''failed to fetch combined item '' @ show_nat k @ '': '' @ e)" by simp
qed

theorem C3_fetchCombined_witness:
  "fst (fetchCombined example_sys None
          (Some \<lparr>GetItems = [Some (Item_Text ''a''), Some (Item_Cmd ''b''), Some (Item_Text ''c'')]\<rparr>) 0)
     = Inr ''abc''
   \<and> resolve_items example_sys None
         [Some (Item_Text ''a''), Some (Item_Cmd ''false''), Some (Item_Text ''c'')] 0 ! 1
       = Inl ''command execution failed: exit status 1 (output: false)''
   \<and> fst (fetchCombined example_sys None
          (Some \<lparr>GetItems = [Some (Item_Text ''a''), Some (Item_Cmd ''false''), Some (Item_Text ''c'')]\<rparr>) 0)
     = Inl ''failed to fetch combined item 1: command execution failed: exit status 1 (output: false)''"
proof -
  let ?ok = "[Some (Item_Text ''a''), Some (Item_Cmd ''b''), Some (Item_Text ''c'')]"
  let ?ko = "[Some (Item_Text ''a''), Some (Item_Cmd ''false''), Some (Item_Text ''c'')]"
  have r1: "resolve_items example_sys None ?ok 0 = [Inr ''a'', Inr ''b'', Inr ''c'']"
    by code_simp
  have r2: "resolve_items example_sys None ?ko 0
              = [Inr ''a'', Inl ''command execution failed: exit status 1 (output: false)'', Inr ''c'']"
    by code_simp
  have h1: "\<forall>r \<in> set (resolve_items example_sys None ?ok 0). \<not> isl r"
    unfolding r1 by simp
  have h2: "(1::nat) < length ?ko
      \<and> resolve_items example_sys None ?ko 0 ! 1
          = Inl ''command execution failed: exit status 1 (output: false)''
      \<and> (\<forall>j<1. \<not> isl (resolve_items example_sys None ?ko 0 ! j))"
    unfolding r2 by simp
  have c1: "fst (fetchCombined example_sys None (Some \<lparr>GetItems = ?ok\<rparr>) 0)
              = Inr (concat (map projr (resolve_items example_sys None ?ok 0)))"
    using C3_fetchCombined [of example_sys None 0 ?ok] h1 by blast
  have c2: "fst (fetchCombined example_sys None (Some \<lparr>GetItems = ?ko\<rparr>) 0)
              = Inl (''failed to fetch combined item '' @ show_nat 1 @ '': ''
                     @ ''command execution failed: exit status 1 (output: false)'')"
    using C3_fetchCombined [of example_sys None 0 ?ko 1
            "''command execution failed: exit status 1 (output: false)''"] h2 by blast
  have s: "show_nat 1 = ''1''" by code_simp
  have c1': "fst (fetchCombined example_sys None (Some \<lparr>GetItems = ?ok\<rparr>) 0) = Inr ''abc''"
    using c1 unfolding r1 by simp
  have c2': "fst (fetchCombined example_sys None (Some \<lparr>GetItems = ?ko\<rparr>) 0)
     = Inl ''failed to fetch combined item 1: command execution failed: exit status 1 (output: false)''"
    using c2 unfolding s by simp
  from c1' c2' h2 show ?thesis by blast
qed

section \<open>Properties of the prefetch processor\<close>

lemma Process_loop_failure:
  "fst (Process_loop sys unset i res entries w) = Inl msg \<Longrightarrow>
   \<exists>k<length entries.
       msg = ''prefetch entry at index '' @ show_nat (i + k) @ '' is nil''
     \<or> (\<exists>err. msg = ''failed to process entry at index '' @ show_nat (i + k) @ '': '' @ err)
     \<or> (\<exists>err. msg = ''failed to unmarshal prefetch result: '' @ err)"
proof (induction entries arbitrary: i res w)
  case Nil
  then show ?case by simp
next
  case (Cons entry entries)
  show ?case
  proof (cases entry)
    case None
    with Cons.prems have "msg = ''prefetch entry at index '' @ show_nat (i + 0) @ '' is nil''" by simp
    then show ?thesis by (intro exI[of _ 0]) simp
  next
    case (Some e)
    obtain r w' where p: "processEntry sys unset e w = (r, w')" by (cases "processEntry sys unset e w")
    show ?thesis
    proof (cases r)
      case (Inl err)
      with Cons.prems Some p have "msg = ''failed to process entry at index '' @ show_nat (i + 0) @ '': '' @ err" by simp
      then show ?thesis by (intro exI[of _ 0]) simp
    next
      case (Inr d)
      show ?thesis
      proof (cases "protojson_Unmarshal sys d")
        case (Inl err)
        with Cons.prems Some p Inr have "msg = ''failed to unmarshal prefetch result: '' @ err" by simp
        then show ?thesis by (intro exI[of _ 0]) simp
      next
        case u: (Inr ds)
        with Cons.prems Some p Inr
        have "fst (Process_loop sys unset (Suc i) (fold (\<lambda>d r. r(GetId d \<mapsto> d)) ds res) entries w') = Inl msg"
          by simp
        from Cons.IH[OF this] obtain k where "k < length entries"
          "msg = ''prefetch entry at index '' @ show_nat (Suc i + k) @ '' is nil''
     \<or> (\<exists>err. msg = ''failed to process entry at index '' @ show_nat (Suc i + k) @ '': '' @ err)
     \<or> (\<exists>err. msg = ''failed to unmarshal prefetch result: '' @ err)" by blast
        then show ?thesis by (intro exI[of _ "Suc k"]) simp
      qed
    qed
  qed
qed

text \<open>
  Claim C7 fails on the code where the output of an entry cannot be parsed. In the example
  world the command \<open>hello\<close> prints a text that does not parse. As the only entry (index 0)
  and as the second entry (index 1) it makes \<open>Process\<close> return the same error,
  \<open>failed to unmarshal prefetch result: syntax error\<close>: the error does not tell the index.
  (A nil entry and a failure of \<open>processEntry\<close> do carry the index, see
  \<open>Process_loop_failure\<close>; no mapping is returned with any error.)
\<close>

theorem C7_unmarshal_error_without_index:
  "fst (Process example_sys unset
          (Some \<lparr>Prefetch_GetEntries = [Some (PrefetchEntry_Cmd ''hello'')]\<rparr>) 0)
     = Inl ''failed to unmarshal prefetch result: syntax error''
   \<and> fst (Process example_sys unset
          (Some \<lparr>Prefetch_GetEntries =
                   [Some (PrefetchEntry_Cmd ''{}''), Some (PrefetchEntry_Cmd ''hello'')]\<rparr>) 0)
     = Inl ''failed to unmarshal prefetch result: syntax error''"
  by (simp add: Process_def processEntry_def ExecuteCommand_def example_sys_def)

section \<open>Properties of the orchestrator\<close>

text \<open>
  Claim C8. When \<open>Recipe.Materialize\<close> returns a result for a recipe, its entries are the
  entries the context materializer returned (none when the recipe has no context), in their
  order, followed by the entries the IDE materializer returned (none when the recipe has no
  IDE section), in their order. The prefetch step gives the generation context and no entry.
\<close>

theorem C8_entry_order:
  assumes "Recipe_Materialize sys unset provider (Some r) w = (Inr es, w')"
  shows "\<exists>genCtx w1 contextEntries w2 ideEntries.
           (case GetPrefetch r of
              None \<Rightarrow> genCtx = \<lparr>Prefetched = Map.empty\<rparr> \<and> w1 = w
            | Some pf \<Rightarrow> \<exists>m. Process sys unset (Some pf) w = (Inr m, w1) \<and> genCtx = \<lparr>Prefetched = m\<rparr>)
         \<and> (case GetContext r of
              None \<Rightarrow> contextEntries = [] \<and> w2 = w1
            | Some c \<Rightarrow> Context_Materialize sys (Some c) (Some genCtx) w1 = (Inr contextEntries, w2))
         \<and> (case GetIde r of
              None \<Rightarrow> ideEntries = [] \<and> w' = w2
            | Some d \<Rightarrow> provider (Some d) w2 = (Inr ideEntries, w'))
         \<and> es = contextEntries @ ideEntries"
proof -
  obtain genCtx w1 where p: "prefetch_step sys unset r w = (Inr genCtx, w1)"
    using assms by (auto simp: Recipe_Materialize_def split: prod.splits sum.splits)
  obtain cs w2 where c: "context_step sys r genCtx w1 = (Inr cs, w2)"
    using assms p by (auto simp: Recipe_Materialize_def split: prod.splits sum.splits)
  obtain ds where i: "ide_step provider r w2 = (Inr ds, w')" and es: "es = cs @ ds"
    using assms p c by (auto simp: Recipe_Materialize_def split: prod.splits sum.splits)
  have 1: "(case GetPrefetch r of
              None \<Rightarrow> genCtx = \<lparr>Prefetched = Map.empty\<rparr> \<and> w1 = w
            | Some pf \<Rightarrow> \<exists>m. Process sys unset (Some pf) w = (Inr m, w1) \<and> genCtx = \<lparr>Prefetched = m\<rparr>)"
    using p by (auto simp: prefetch_step_def split: option.splits prod.splits sum.splits)
  have 2: "(case GetContext r of
              None \<Rightarrow> cs = [] \<and> w2 = w1
            | Some c \<Rightarrow> Context_Materialize sys (Some c) (Some genCtx) w1 = (Inr cs, w2))"
    using c by (auto simp: context_step_def split: option.splits prod.splits sum.splits)
  have 3: "(case GetIde r of
              None \<Rightarrow> ds = [] \<and> w' = w2
            | Some d \<Rightarrow> provider (Some d) w2 = (Inr ds, w'))"
    using i by (auto simp: ide_step_def split: option.splits prod.splits sum.splits)
  from 1 2 3 es show ?thesis by blast
qed

theorem C8_entry_order_witness:
  "Recipe_Materialize example_sys ''not set''
     (IDE_Materialize example_sys (claude_NewIDEProvider example_sys))
     (Some \<lparr>GetPrefetch = None,
            GetContext = Some \<lparr>Context_GetEntries =
              [Some \<lparr>Entry_GetPath = ''README.md'',
                     Entry_GetFrom = Some (ContextFrom_Text ''# Project README'')\<rparr>]\<rparr>,
            GetIde = Some \<lparr>GetCommands = None, GetPermissions = None, GetMcp = None\<rparr>\<rparr>) 0
   = (Inr [\<lparr>Path = ''README.md'', Content = Verbatim ''# Project README''\<rparr>,
           \<lparr>Path = ''.claude/settings.local.json'',
            Content = Indented (JObject [(''permissions'', JObject [(''defaultMode'', JString ''acceptEdits'')]),
                                         (''enableAllProjectMcpServers'', JBool True)])\<rparr>], 0)
   \<and> Context_Materialize example_sys
         (Some \<lparr>Context_GetEntries =
            [Some \<lparr>Entry_GetPath = ''README.md'',
                   Entry_GetFrom = Some (ContextFrom_Text ''# Project README'')\<rparr>]\<rparr>)
         (Some \<lparr>Prefetched = Map.empty\<rparr>) 0
       = (Inr [\<lparr>Path = ''README.md'', Content = Verbatim ''# Project README''\<rparr>], 0)
   \<and> IDE_Materialize example_sys (claude_NewIDEProvider example_sys)
         (Some \<lparr>GetCommands = None, GetPermissions = None, GetMcp = None\<rparr>) 0
       = (Inr [\<lparr>Path = ''.claude/settings.local.json'',
                Content = Indented (JObject [(''permissions'', JObject [(''defaultMode'', JString ''acceptEdits'')]),
                                             (''enableAllProjectMcpServers'', JBool True)])\<rparr>], 0)"
proof -
  let ?ctx = "\<lparr>Context_GetEntries =
              [Some \<lparr>Entry_GetPath = ''README.md'',
                     Entry_GetFrom = Some (ContextFrom_Text ''# Project README'')\<rparr>]\<rparr>"
  let ?ide = "\<lparr>GetCommands = None, GetPermissions = None, GetMcp = None\<rparr>"
  let ?r = "\<lparr>GetPrefetch = None, GetContext = Some ?ctx, GetIde = Some ?ide\<rparr>"
  let ?readme = "\<lparr>Path = ''README.md'', Content = Verbatim ''# Project README''\<rparr>"
  let ?settings = "\<lparr>Path = ''.claude/settings.local.json'',
            Content = Indented (JObject [(''permissions'', JObject [(''defaultMode'', JString ''acceptEdits'')]),
                                         (''enableAllProjectMcpServers'', JBool True)])\<rparr>"
  have run: "Recipe_Materialize example_sys ''not set''
     (IDE_Materialize example_sys (claude_NewIDEProvider example_sys)) (Some ?r) 0
       = (Inr [?readme, ?settings], 0)"
    by code_simp
  have cm: "Context_Materialize example_sys (Some ?ctx) (Some \<lparr>Prefetched = Map.empty\<rparr>) 0
              = (Inr [?readme], 0)"
    by code_simp
  from C8_entry_order [OF run] obtain genCtx w1 contextEntries w2 ideEntries where
      1: "genCtx = \<lparr>Prefetched = Map.empty\<rparr> \<and> w1 = 0"
    and 2: "Context_Materialize example_sys (Some ?ctx) (Some genCtx) w1 = (Inr contextEntries, w2)"
    and 3: "IDE_Materialize example_sys (claude_NewIDEProvider example_sys) (Some ?ide) w2
              = (Inr ideEntries, 0)"
    and 4: "[?readme, ?settings] = contextEntries @ ideEntries"
    by auto
  from 1 2 cm have ce: "contextEntries = [?readme]" and w2: "w2 = 0" by simp_all
  from 4 ce have "ideEntries = [?settings]" by simp
  with 3 w2 run cm show ?thesis by simp
qed

section \<open>Properties of the IDE materializer\<close>










end
